theory Spec2Isabelle
  imports Complex_Main "HOL-Library.AList" "HOL-Library.Char_ord" "HOL-Library.List_Lexorder"
begin

section \<open>EloTracker: day records, the JSON store and the command line\<close>

text \<open>
  A shallow embedding of \<^verbatim>\<open>src/elo_tracker/storage.py\<close> and
  \<^verbatim>\<open>src/elo_tracker/cli.py\<close>. Python exceptions are values of \<open>error\<close>,
  the data directory and its file are an explicit \<open>filesystem\<close> value that every
  operation takes and returns, and what a command prints is the text it adds to
  standard output.
\<close>

subsection \<open>Exceptions\<close>

datatype error =
    JSONDecodeError
  | AttributeError
  | ValueError
  | TypeError
  | IndexError
  | OverflowError
  | EOFError
  | SystemExit nat
  | NonIntegerSets  \<comment> \<open>no exception of Python: see \<open>print_table\<close>\<close>

subsection \<open>Strings\<close>

text \<open>
  A Python \<^verbatim>\<open>str\<close> is a sequence of code points; a \<open>string\<close> here is a list of
  \<open>char\<close>, each standing for one code point below 256. Lengths, padding and the order
  of strings (by code point, left to right) are then those of Python.
\<close>

definition digit_char :: "int \<Rightarrow> char" where
  "digit_char n = ''0123456789'' ! nat n"

text \<open>The decimal digits of a number that is not negative.\<close>

function str_digits :: "int \<Rightarrow> string" where
  "str_digits n = (if n < 10 then [digit_char n] else str_digits (n div 10) @ [digit_char (n mod 10)])"
  by pat_completeness auto
termination
  by (relation "measure nat") auto

declare str_digits.simps [simp del]

text \<open>\<^verbatim>\<open>str(i)\<close> for an integer.\<close>

definition py_str :: "int \<Rightarrow> string" where
  "py_str i = (if i < 0 then CHR ''-'' # str_digits (- i) else str_digits i)"

text \<open>A field of \<^verbatim>\<open>"%04d"\<close> or \<^verbatim>\<open>"%02d"\<close> for a number that is not negative.\<close>

definition zero_padded :: "nat \<Rightarrow> int \<Rightarrow> string" where
  "zero_padded w i = replicate (w - length (py_str i)) (CHR ''0'') @ py_str i"

definition is_digit :: "char \<Rightarrow> bool" where
  "is_digit c = (48 \<le> (of_char c :: nat) \<and> (of_char c :: nat) \<le> 57)"

text \<open>The number a run of ASCII digits spells; \<open>None\<close> when a character is not a digit.\<close>

definition parse_digits :: "string \<Rightarrow> int option" where
  "parse_digits s =
     (if list_all is_digit s
      then Some (fold (\<lambda>c acc. acc * 10 + (int (of_char c) - 48)) s 0)
      else None)"

text \<open>\<^verbatim>\<open>s.ljust(w)\<close>.\<close>

definition ljust :: "string \<Rightarrow> nat \<Rightarrow> string" where
  "ljust s w = s @ replicate (w - length s) (CHR '' '')"

text \<open>\<^verbatim>\<open>sep.join(parts)\<close>.\<close>

fun join :: "string \<Rightarrow> string list \<Rightarrow> string" where
  "join sep [] = []"
| "join sep [x] = x"
| "join sep (x # y # ys) = x @ sep @ join sep (y # ys)"

text \<open>\<^verbatim>\<open>str.isspace\<close> on one code point below 256.\<close>

definition is_space :: "char \<Rightarrow> bool" where
  "is_space c = ((of_char c :: nat) \<in> {9, 10, 11, 12, 13, 28, 29, 30, 31, 32, 133, 160})"

text \<open>\<^verbatim>\<open>s.strip()\<close>.\<close>

definition strip :: "string \<Rightarrow> string" where
  "strip s = rev (dropWhile is_space (rev (dropWhile is_space s)))"

text \<open>\<^verbatim>\<open>s.lower()\<close>: the ASCII capitals and the capitals of the Latin-1 block move
  up by 32; every other code point below 256 is its own lower case.\<close>

definition lower_char :: "char \<Rightarrow> char" where
  "lower_char c =
     (let n = (of_char c :: nat)
      in if (65 \<le> n \<and> n \<le> 90) \<or> (192 \<le> n \<and> n \<le> 222 \<and> n \<noteq> 215) then char_of (n + 32) else c)"

definition lower :: "string \<Rightarrow> string" where
  "lower s = map lower_char s"

text \<open>What \<^verbatim>\<open>print(s)\<close> adds to standard output.\<close>

definition print :: "string \<Rightarrow> string" where
  "print s = s @ [CHR 0x0A]"

subsection \<open>datetime.date\<close>

text \<open>
  The part of the standard library's \<^verbatim>\<open>datetime\<close> module the program calls:
  the constructor's range check, the order of dates, \<^verbatim>\<open>isoformat\<close>,
  \<^verbatim>\<open>fromisoformat\<close>, and subtracting a \<^verbatim>\<open>timedelta\<close> of whole days through
  the proleptic Gregorian ordinal (day 1 is 0001-01-01).
\<close>

text \<open>The three attributes of a \<^verbatim>\<open>date\<close> object. Only values that \<open>make_date\<close>
  accepts occur in a run.\<close>

record pydate =
  year :: int
  month :: int
  day :: int

definition is_leap :: "int \<Rightarrow> bool" where
  "is_leap y = (y mod 4 = 0 \<and> (y mod 100 \<noteq> 0 \<or> y mod 400 = 0))"

definition days_in_month :: "int \<Rightarrow> int \<Rightarrow> int" where
  "days_in_month y m =
     (if m = 2 \<and> is_leap y then 29
      else [31, 28, 31, 30, 31, 30, 31, 31, 30, 31, 30, 31] ! nat (m - 1))"

definition days_before_month :: "int \<Rightarrow> int \<Rightarrow> int" where
  "days_before_month y m =
     [0, 31, 59, 90, 120, 151, 181, 212, 243, 273, 304, 334] ! nat (m - 1)
     + (if m > 2 \<and> is_leap y then 1 else 0)"

definition days_before_year :: "int \<Rightarrow> int" where
  "days_before_year y = (y - 1) * 365 + (y - 1) div 4 - (y - 1) div 100 + (y - 1) div 400"

text \<open>\<^verbatim>\<open>date(year, month, day)\<close>: \<^verbatim>\<open>ValueError\<close> outside the calendar.\<close>

definition make_date :: "int \<Rightarrow> int \<Rightarrow> int \<Rightarrow> error + pydate" where
  "make_date y m d =
     (if 1 \<le> y \<and> y \<le> 9999 \<and> 1 \<le> m \<and> m \<le> 12 \<and> 1 \<le> d \<and> d \<le> days_in_month y m
      then Inr \<lparr>year = y, month = m, day = d\<rparr>
      else Inl ValueError)"

definition toordinal :: "pydate \<Rightarrow> int" where
  "toordinal d = days_before_year (year d) + days_before_month (year d) (month d) + day d"

definition fromordinal :: "int \<Rightarrow> pydate" where
  "fromordinal ordinal =
     (let n = ordinal - 1;
          n400 = n div 146097; r400 = n mod 146097;
          n100 = r400 div 36524; r100 = r400 mod 36524;
          n4 = r100 div 1461; r4 = r100 mod 1461;
          n1 = r4 div 365; r1 = r4 mod 365;
          y = n400 * 400 + 1 + n100 * 100 + n4 * 4 + n1
      in if n1 = 4 \<or> n100 = 4 then \<lparr>year = y - 1, month = 12, day = 31\<rparr>
         else
           (let leapyear = (n1 = 3 \<and> (n4 \<noteq> 24 \<or> n100 = 3));
                m = (r1 + 50) div 32;
                preceding =
                  [0, 31, 59, 90, 120, 151, 181, 212, 243, 273, 304, 334] ! nat (m - 1)
                  + (if m > 2 \<and> leapyear then 1 else 0)
            in if preceding > r1
               then
                 (let m' = m - 1;
                      preceding' =
                        preceding
                        - ([31, 28, 31, 30, 31, 30, 31, 31, 30, 31, 30, 31] ! nat (m' - 1)
                           + (if m' = 2 \<and> leapyear then 1 else 0))
                  in \<lparr>year = y, month = m', day = r1 - preceding' + 1\<rparr>)
               else \<lparr>year = y, month = m, day = r1 - preceding + 1\<rparr>))"

text \<open>\<^verbatim>\<open>a <= b\<close> on dates: the order of the triples (year, month, day).\<close>

definition date_le :: "pydate \<Rightarrow> pydate \<Rightarrow> bool" where
  "date_le a b =
     (year a < year b
      \<or> (year a = year b \<and> (month a < month b \<or> (month a = month b \<and> day a \<le> day b))))"

text \<open>
  \<^verbatim>\<open>d - timedelta(days=n)\<close>. The \<^verbatim>\<open>timedelta\<close> constructor refuses more than
  999999999 days, and the difference must be an ordinal from 1 to that of 9999-12-31;
  both failures are \<^verbatim>\<open>OverflowError\<close>.
\<close>

definition date_minus_days :: "pydate \<Rightarrow> int \<Rightarrow> error + pydate" where
  "date_minus_days d n =
     (if \<bar>n\<bar> > 999999999 then Inl OverflowError
      else
        (let ordinal = toordinal d - n
         in if 0 < ordinal \<and> ordinal \<le> 3652059 then Inr (fromordinal ordinal)
            else Inl OverflowError))"

text \<open>\<^verbatim>\<open>d.isoformat()\<close>: \<^verbatim>\<open>"%04d-%02d-%02d"\<close>.\<close>

definition isoformat :: "pydate \<Rightarrow> string" where
  "isoformat d =
     zero_padded 4 (year d) @ ''-'' @ zero_padded 2 (month d) @ ''-'' @ zero_padded 2 (day d)"

text \<open>
  \<^verbatim>\<open>date.fromisoformat(s)\<close>, as CPython 3.11 and later read a string (Python 3.7 to
  3.10 read the first of the forms below only). The reader works on the UTF-8 bytes of
  the string: there must be 7, 8 or 10 of them, and what follows a complete date is not
  looked at. After the four digits of the year come, with hyphens or without,
  \<^verbatim>\<open>YYYY-MM-DD\<close> or \<^verbatim>\<open>YYYYMMDD\<close>, or an ISO week date \<^verbatim>\<open>YYYY-Www-D\<close>,
  \<^verbatim>\<open>YYYYWwwD\<close>, \<^verbatim>\<open>YYYY-Www\<close> or \<^verbatim>\<open>YYYYWww\<close>. Every failure is
  \<^verbatim>\<open>ValueError\<close>.
\<close>

text \<open>The UTF-8 bytes of a string of code points below 256.\<close>

definition utf8 :: "string \<Rightarrow> string" where
  "utf8 s =
     concat (map (\<lambda>c. if (of_char c :: nat) < 128 then [c]
                        else [char_of (192 + (of_char c :: nat) div 64),
                              char_of (128 + (of_char c :: nat) mod 64)]) s)"

text \<open>The byte at a position; behind the last byte the reader finds the terminating
  zero byte.\<close>

definition byte_at :: "string \<Rightarrow> nat \<Rightarrow> char" where
  "byte_at b i = (if i < length b then b ! i else CHR 0x00)"

text \<open>The number spelled by the \<open>k\<close> bytes from position \<open>pos\<close>, when all are digits.\<close>

definition digits_at :: "string \<Rightarrow> nat \<Rightarrow> nat \<Rightarrow> int option" where
  "digits_at b pos k = parse_digits (map (byte_at b) [pos..<pos + k])"

text \<open>The ordinal of the Monday that starts ISO week 1 of a year: the Monday nearest
  to the first of January.\<close>

definition first_weekday :: "int \<Rightarrow> int" where
  "first_weekday y = (toordinal \<lparr>year = y, month = 1, day = 1\<rparr> + 6) mod 7"

definition iso_week1_monday :: "int \<Rightarrow> int" where
  "iso_week1_monday y =
     (let week1_monday = toordinal \<lparr>year = y, month = 1, day = 1\<rparr> - first_weekday y
      in if first_weekday y > 3 then week1_monday + 7 else week1_monday)"

text \<open>
  The date of an ISO year, week and day. Week 53 exists in a year that starts on a
  Thursday, or on a Wednesday when it is a leap year. A week date of the year 0000 has
  no positive ordinal, and the constructor refuses what the reader makes of it; one
  late in 9999 falls into the year 10000, which \<open>make_date\<close> refuses.
\<close>

definition iso_to_date :: "int \<Rightarrow> int \<Rightarrow> int \<Rightarrow> error + pydate" where
  "iso_to_date iso_year iso_week iso_day =
     (if (iso_week \<le> 0 \<or> iso_week \<ge> 53)
         \<and> \<not> (iso_week = 53
                \<and> (first_weekday iso_year = 3 \<or> (first_weekday iso_year = 2 \<and> is_leap iso_year)))
      then Inl ValueError
      else if iso_day \<le> 0 \<or> iso_day \<ge> 8 then Inl ValueError
      else
        (let ordinal = iso_week1_monday iso_year + (iso_week - 1) * 7 + iso_day - 1
         in if ordinal < 1 then Inl ValueError
            else make_date (year (fromordinal ordinal)) (month (fromordinal ordinal))
                   (day (fromordinal ordinal))))"

definition fromisoformat :: "string \<Rightarrow> error + pydate" where
  "fromisoformat s =
     (let b = utf8 s; len = length b
      in if len \<noteq> 7 \<and> len \<noteq> 8 \<and> len \<noteq> 10 then Inl ValueError
         else
           (case digits_at b 0 4 of
              None \<Rightarrow> Inl ValueError
            | Some y \<Rightarrow>
                (let uses_separator = (byte_at b 4 = CHR ''-'');
                     p = (if uses_separator then 5 else 4)
                 in if byte_at b p = CHR ''W''
                    then
                      (case digits_at b (p + 1) 2 of
                         None \<Rightarrow> Inl ValueError
                       | Some iso_week \<Rightarrow>
                           (if p + 3 < len
                            then
                              (if uses_separator \<and> byte_at b (p + 3) \<noteq> CHR ''-''
                               then Inl ValueError
                               else
                                 (case digits_at b (if uses_separator then p + 4 else p + 3) 1 of
                                    None \<Rightarrow> Inl ValueError
                                  | Some iso_day \<Rightarrow> iso_to_date y iso_week iso_day))
                            else iso_to_date y iso_week 1))
                    else
                      (case digits_at b p 2 of
                         None \<Rightarrow> Inl ValueError
                       | Some m \<Rightarrow>
                           (if uses_separator \<and> byte_at b (p + 2) \<noteq> CHR ''-''
                            then Inl ValueError
                            else
                              (case digits_at b (if uses_separator then p + 3 else p + 2) 2 of
                                 None \<Rightarrow> Inl ValueError
                               | Some d \<Rightarrow> make_date y m d))))))"

subsection \<open>storage.py: EloDay\<close>

text \<open>
  The dataclass \<^verbatim>\<open>EloDay\<close>. The source annotates \<^verbatim>\<open>sets: List[int]\<close>, and
  the properties below are typed by that annotation; the record is polymorphic in the
  element type because \<^verbatim>\<open>from_dict\<close> stores whatever list the file holds.
\<close>

record 'a EloDay =
  date :: pydate
  sets :: "'a list"

text \<open>\<^verbatim>\<open>max(xs)\<close> and \<^verbatim>\<open>min(xs)\<close> on a non-empty list: one pass, keeping the
  best element so far.\<close>

fun py_max :: "int list \<Rightarrow> int" where
  "py_max (x # xs) = fold (\<lambda>y acc. if acc < y then y else acc) xs x"
| "py_max [] = undefined"

fun py_min :: "int list \<Rightarrow> int" where
  "py_min (x # xs) = fold (\<lambda>y acc. if y < acc then y else acc) xs x"
| "py_min [] = undefined"

definition start :: "int EloDay \<Rightarrow> int option" where
  "start d = (if sets d \<noteq> [] then Some (hd (sets d)) else None)"

definition end' :: "int EloDay \<Rightarrow> int option" where
  "end' d = (if sets d \<noteq> [] then Some (last (sets d)) else None)"

definition change :: "int EloDay \<Rightarrow> int option" where
  "change d = (if sets d = [] then None else Some (last (sets d) - hd (sets d)))"

definition best :: "int EloDay \<Rightarrow> int option" where
  "best d = (if sets d \<noteq> [] then Some (py_max (sets d)) else None)"

definition worst :: "int EloDay \<Rightarrow> int option" where
  "worst d = (if sets d \<noteq> [] then Some (py_min (sets d)) else None)"

subsection \<open>JSON documents and the Python objects read from them\<close>

text \<open>
  The standard library's \<^verbatim>\<open>json\<close> module is not part of the program. A file is
  modelled by what \<^verbatim>\<open>json.load\<close> makes of its text: either the text is not JSON,
  or it is a document, kept as a tree. An object of a document is the list of its
  members in the order they are written, duplicates included. The same trees stand for
  the Python objects of a run: \<open>JNull\<close> for \<^verbatim>\<open>None\<close>, \<open>JArr\<close> for a list and
  \<open>JObj\<close> for a \<^verbatim>\<open>dict\<close> in insertion order. A number with a fraction or an exponent
  is carried as a rational and no arithmetic is done on it; the literals \<^verbatim>\<open>NaN\<close> and
  \<^verbatim>\<open>Infinity\<close>, which \<^verbatim>\<open>json.load\<close> also reads, are left out.
\<close>

datatype json =
    JNull
  | JBool bool
  | JInt int
  | JFloat rat
  | JStr string
  | JArr "json list"
  | JObj "(string \<times> json) list"

text \<open>A \<^verbatim>\<open>dict\<close> filled member by member: a repeated key keeps its first place and
  takes the last value.\<close>

definition dict_of_pairs :: "(string \<times> 'v) list \<Rightarrow> (string \<times> 'v) list" where
  "dict_of_pairs ps = fold (\<lambda>kv d. AList.update (fst kv) (snd kv) d) ps []"

text \<open>\<^verbatim>\<open>json.load\<close> on a document: every object becomes a \<^verbatim>\<open>dict\<close>.\<close>

fun json_load :: "json \<Rightarrow> json" where
  "json_load (JArr xs) = JArr (map json_load xs)"
| "json_load (JObj ps) = JObj (dict_of_pairs (map (\<lambda>(k, v). (k, json_load v)) ps))"
| "json_load JNull = JNull"
| "json_load (JBool b) = JBool b"
| "json_load (JInt i) = JInt i"
| "json_load (JFloat q) = JFloat q"
| "json_load (JStr s) = JStr s"

text \<open>The document \<^verbatim>\<open>json.dump(obj, f, indent=2, sort_keys=True)\<close> writes: the
  members of every \<^verbatim>\<open>dict\<close> in the order of their keys.\<close>

fun json_dump :: "json \<Rightarrow> json" where
  "json_dump (JArr xs) = JArr (map json_dump xs)"
| "json_dump (JObj ps) = JObj (sort_key fst (map (\<lambda>(k, v). (k, json_dump v)) ps))"
| "json_dump JNull = JNull"
| "json_dump (JBool b) = JBool b"
| "json_dump (JInt i) = JInt i"
| "json_dump (JFloat q) = JFloat q"
| "json_dump (JStr s) = JStr s"

text \<open>\<^verbatim>\<open>list(x)\<close>: a list is copied, a string gives its characters, a \<^verbatim>\<open>dict\<close>
  its keys; \<^verbatim>\<open>None\<close>, a boolean and a number are not iterable.\<close>

fun py_list :: "json \<Rightarrow> error + json list" where
  "py_list (JArr xs) = Inr xs"
| "py_list (JStr s) = Inr (map (\<lambda>c. JStr [c]) s)"
| "py_list (JObj ps) = Inr (map (\<lambda>kv. JStr (fst kv)) ps)"
| "py_list JNull = Inl TypeError"
| "py_list (JBool b) = Inl TypeError"
| "py_list (JInt i) = Inl TypeError"
| "py_list (JFloat q) = Inl TypeError"

subsection \<open>storage.py: serialising a day, EloData\<close>

definition to_dict :: "json EloDay \<Rightarrow> json" where
  "to_dict d = JObj [(''sets'', JArr (sets d))]"

text \<open>\<^verbatim>\<open>EloDay.from_dict\<close>: \<^verbatim>\<open>data.get\<close> exists on a \<^verbatim>\<open>dict\<close> only
  (\<^verbatim>\<open>AttributeError\<close> otherwise), and a missing \<^verbatim>\<open>"sets"\<close> is the empty list.\<close>

fun from_dict :: "pydate \<Rightarrow> json \<Rightarrow> error + json EloDay" where
  "from_dict day_obj (JObj ps) =
     (case map_of ps ''sets'' of
        None \<Rightarrow> Inr \<lparr>date = day_obj, sets = []\<rparr>
      | Some v \<Rightarrow>
          (case py_list v of
             Inl e \<Rightarrow> Inl e
           | Inr xs \<Rightarrow> Inr \<lparr>date = day_obj, sets = xs\<rparr>))"
| "from_dict day_obj JNull = Inl AttributeError"
| "from_dict day_obj (JBool b) = Inl AttributeError"
| "from_dict day_obj (JInt i) = Inl AttributeError"
| "from_dict day_obj (JFloat q) = Inl AttributeError"
| "from_dict day_obj (JStr s) = Inl AttributeError"
| "from_dict day_obj (JArr xs) = Inl AttributeError"

text \<open>The dataclass \<^verbatim>\<open>EloData\<close>: its \<^verbatim>\<open>dict\<close> of days, keyed by the ISO string of
  the day, in insertion order.\<close>

record 'a EloData =
  days :: "(string \<times> 'a EloDay) list"

definition to_json :: "json EloData \<Rightarrow> json" where
  "to_json data = JObj (map (\<lambda>(k, d). (k, to_dict d)) (days data))"

text \<open>The loop of \<^verbatim>\<open>EloData.from_json\<close>, stopping at the first exception.\<close>

fun from_json_items ::
  "(string \<times> json) list \<Rightarrow> (string \<times> json EloDay) list \<Rightarrow> error + (string \<times> json EloDay) list" where
  "from_json_items [] acc = Inr acc"
| "from_json_items ((day_str, v) # rest) acc =
     (case fromisoformat day_str of
        Inl e \<Rightarrow> Inl e
      | Inr day_obj \<Rightarrow>
          (case from_dict day_obj v of
             Inl e \<Rightarrow> Inl e
           | Inr d \<Rightarrow> from_json_items rest (AList.update day_str d acc)))"

text \<open>\<^verbatim>\<open>EloData.from_json\<close>: \<^verbatim>\<open>raw.items()\<close> exists on a \<^verbatim>\<open>dict\<close> only.\<close>

fun from_json :: "json \<Rightarrow> error + json EloData" where
  "from_json (JObj ps) =
     (case from_json_items ps [] of Inl e \<Rightarrow> Inl e | Inr ds \<Rightarrow> Inr \<lparr>days = ds\<rparr>)"
| "from_json JNull = Inl AttributeError"
| "from_json (JBool b) = Inl AttributeError"
| "from_json (JInt i) = Inl AttributeError"
| "from_json (JFloat q) = Inl AttributeError"
| "from_json (JStr s) = Inl AttributeError"
| "from_json (JArr xs) = Inl AttributeError"

text \<open>\<^verbatim>\<open>EloData.get_day\<close>: the store, with an empty day inserted when the key was
  missing, and the day under the key.\<close>

definition get_day :: "'a EloData \<Rightarrow> pydate \<Rightarrow> 'a EloData \<times> 'a EloDay" where
  "get_day data d =
     (let day_key = isoformat d
      in case map_of (days data) day_key of
           None \<Rightarrow>
             (data\<lparr>days := days data @ [(day_key, \<lparr>date = d, sets = []\<rparr>)]\<rparr>, \<lparr>date = d, sets = []\<rparr>)
         | Some x \<Rightarrow> (data, x))"

definition sorted_days :: "'a EloData \<Rightarrow> 'a EloDay list" where
  "sorted_days data = map (\<lambda>k. the (map_of (days data) k)) (sort (map fst (days data)))"

subsection \<open>storage.py: the file\<close>

datatype file_content = Not_json | Json json

text \<open>The data directory: missing, or present with or without the history file.\<close>

datatype filesystem = No_dir | Dir "file_content option"

fun data_file :: "filesystem \<Rightarrow> file_content option" where
  "data_file No_dir = None"
| "data_file (Dir f) = f"

text \<open>\<^verbatim>\<open>path.mkdir(parents=True, exist_ok=True)\<close>.\<close>

fun ensure_storage_dir :: "filesystem \<Rightarrow> filesystem" where
  "ensure_storage_dir No_dir = Dir None"
| "ensure_storage_dir (Dir f) = Dir f"

definition load_data :: "filesystem \<Rightarrow> filesystem \<times> (error + json EloData)" where
  "load_data fs =
     (let fs' = ensure_storage_dir fs
      in case data_file fs' of
           None \<Rightarrow> (fs', Inr \<lparr>days = []\<rparr>)
         | Some Not_json \<Rightarrow> (fs', Inl JSONDecodeError)
         | Some (Json doc) \<Rightarrow> (fs', from_json (json_load doc)))"

text \<open>Opening the file for writing and writing the whole document. (In a missing
  directory the open would fail; \<open>save_data\<close> makes the directory first.)\<close>

fun write_file :: "file_content \<Rightarrow> filesystem \<Rightarrow> filesystem" where
  "write_file c (Dir f) = Dir (Some c)"
| "write_file c No_dir = No_dir"

definition save_data :: "json EloData \<Rightarrow> filesystem \<Rightarrow> filesystem" where
  "save_data data fs = write_file (Json (json_dump (to_json data))) (ensure_storage_dir fs)"

subsection \<open>cli.py: formatting\<close>

definition format_change :: "int option \<Rightarrow> string" where
  "format_change c =
     (case c of
        None \<Rightarrow> ''-''
      | Some v \<Rightarrow> (if v \<ge> 0 then ''+'' else []) @ py_str v)"

definition format_optional :: "int option \<Rightarrow> string" where
  "format_optional v = (case v of Some i \<Rightarrow> py_str i | None \<Rightarrow> ''-'')"

definition summarize_day :: "int EloDay \<Rightarrow> string list" where
  "summarize_day d =
     [isoformat (date d),
      py_str (int (length (sets d))),
      format_optional (start d),
      format_optional (end' d),
      format_change (change d),
      format_optional (best d),
      format_optional (worst d)]"

text \<open>
  \<^verbatim>\<open>render_table\<close>. The inner loop over \<^verbatim>\<open>enumerate(row_values)\<close> writes
  \<^verbatim>\<open>col_widths[idx]\<close>, which raises \<^verbatim>\<open>IndexError\<close> when a row has more cells than
  there are headers; \<open>widen\<close> is that loop from index \<open>idx\<close> on, \<open>scan_rows\<close> the
  outer loop.
\<close>

fun widen :: "nat list \<Rightarrow> nat \<Rightarrow> string list \<Rightarrow> error + nat list" where
  "widen col_widths idx [] = Inr col_widths"
| "widen col_widths idx (v # vs) =
     (if idx < length col_widths
      then widen (col_widths[idx := max (col_widths ! idx) (length v)]) (Suc idx) vs
      else Inl IndexError)"

fun scan_rows :: "nat list \<Rightarrow> string list list \<Rightarrow> error + nat list" where
  "scan_rows col_widths [] = Inr col_widths"
| "scan_rows col_widths (row # rows) =
     (case widen col_widths 0 row of
        Inl e \<Rightarrow> Inl e
      | Inr col_widths' \<Rightarrow> scan_rows col_widths' rows)"

text \<open>The list comprehension of \<^verbatim>\<open>format_row\<close>, from index \<open>idx\<close> on.\<close>

fun format_parts :: "nat list \<Rightarrow> nat \<Rightarrow> string list \<Rightarrow> error + string list" where
  "format_parts col_widths idx [] = Inr []"
| "format_parts col_widths idx (v # vs) =
     (if idx < length col_widths
      then
        (case format_parts col_widths (Suc idx) vs of
           Inl e \<Rightarrow> Inl e
         | Inr parts \<Rightarrow> Inr (ljust v (col_widths ! idx) # parts))
      else Inl IndexError)"

definition format_row :: "nat list \<Rightarrow> string list \<Rightarrow> error + string" where
  "format_row col_widths row_values =
     (case format_parts col_widths 0 row_values of
        Inl e \<Rightarrow> Inl e
      | Inr parts \<Rightarrow> Inr (join '' | '' parts))"

text \<open>\<^verbatim>\<open>[format_row(row) for row in row_list]\<close>.\<close>

fun format_rows :: "nat list \<Rightarrow> string list list \<Rightarrow> error + string list" where
  "format_rows col_widths [] = Inr []"
| "format_rows col_widths (row # rows) =
     (case format_row col_widths row of
        Inl e \<Rightarrow> Inl e
      | Inr line \<Rightarrow>
          (case format_rows col_widths rows of
             Inl e \<Rightarrow> Inl e
           | Inr lines \<Rightarrow> Inr (line # lines)))"

definition render_table :: "string list \<Rightarrow> string list list \<Rightarrow> error + string" where
  "render_table headers rows =
     (case scan_rows (map length headers) rows of
        Inl e \<Rightarrow> Inl e
      | Inr col_widths \<Rightarrow>
          (case format_row col_widths headers of
             Inl e \<Rightarrow> Inl e
           | Inr header_line \<Rightarrow>
               (let separator = join ''-+-'' (map (\<lambda>width. replicate width (CHR ''-'')) col_widths)
                in case format_rows col_widths rows of
                     Inl e \<Rightarrow> Inl e
                   | Inr body_lines \<Rightarrow>
                       Inr (if body_lines \<noteq> []
                            then join [CHR 0x0A] (header_line # separator # body_lines)
                            else header_line))))"

subsection \<open>cli.py: the commands\<close>

text \<open>
  The attributes of the \<^verbatim>\<open>argparse.Namespace\<close> the commands read. (\<^verbatim>\<open>args.date\<close>
  and \<^verbatim>\<open>args.days\<close> are \<open>date_arg\<close> and \<open>days_arg\<close> here: \<open>date\<close> and \<open>days\<close>
  are the fields of the two dataclasses.)
\<close>

datatype command = Record | Summary | History | Reset

record namespace =
  func :: "command option"
  elo :: int
  date_arg :: "pydate option"
  days_arg :: "int option"
  limit :: "int option"

text \<open>
  A run of a command: the file system it leaves, the text it wrote to standard output,
  and the exception that ended it, if one did.
\<close>

type_synonym run = "filesystem \<times> string \<times> error option"

definition no_data_message :: string where
  "no_data_message = ''No Elo data recorded yet. Use the 'record' command to add a set.''"

text \<open>
  The header row. Its fifth cell is the capital Greek delta, a space and \<^verbatim>\<open>Elo\<close> in
  the source, five code points; U+0394 is above 255, so the single character
  \<open>CHR 0x94\<close> stands for it here and the cell keeps its length.
\<close>

definition table_headers :: "string list" where
  "table_headers = [''Date'', ''Sets'', ''Start'', ''End'', CHR 0x94 # '' Elo'', ''Peak'', ''Low'']"

text \<open>
  The elements of a day as integers, when all of them are. What \<^verbatim>\<open>summarize_day\<close>
  does with other elements (strings, \<^verbatim>\<open>None\<close>, nested lists, which \<^verbatim>\<open>from_dict\<close>
  lets through) is not followed: a run that reaches it ends with the mark
  \<open>NonIntegerSets\<close>, which is no exception of Python.
\<close>

fun as_int :: "json \<Rightarrow> int option" where
  "as_int (JInt i) = Some i"
| "as_int JNull = None"
| "as_int (JBool b) = None"
| "as_int (JFloat q) = None"
| "as_int (JStr s) = None"
| "as_int (JArr xs) = None"
| "as_int (JObj ps) = None"

definition int_day :: "json EloDay \<Rightarrow> int EloDay option" where
  "int_day d =
     (if list_all (\<lambda>v. as_int v \<noteq> None) (sets d)
      then Some \<lparr>date = date d, sets = map (\<lambda>v. the (as_int v)) (sets d)\<rparr>
      else None)"

text \<open>\<^verbatim>\<open>rows = [summarize_day(day) for day in days]\<close> and
  \<^verbatim>\<open>print(render_table(headers, rows))\<close>, the common end of summary and history.\<close>

definition print_table :: "filesystem \<Rightarrow> json EloDay list \<Rightarrow> run" where
  "print_table fs ds =
     (if list_all (\<lambda>d. int_day d \<noteq> None) ds
      then
        (case render_table table_headers (map (\<lambda>d. summarize_day (the (int_day d))) ds) of
           Inl e \<Rightarrow> (fs, [], Some e)
         | Inr t \<Rightarrow> (fs, print t, None))
      else (fs, [], Some NonIntegerSets))"

text \<open>\<^verbatim>\<open>xs[i:]\<close>: a negative start counts from the end, and a start outside the list
  is clamped.\<close>

definition slice_from :: "int \<Rightarrow> 'a list \<Rightarrow> 'a list" where
  "slice_from i xs = (if i < 0 then drop (nat (int (length xs) + i)) xs else drop (nat i) xs)"

text \<open>\<^verbatim>\<open>cmd_record\<close>; \<open>today\<close> is what \<^verbatim>\<open>date.today()\<close> returns.\<close>

definition cmd_record :: "pydate \<Rightarrow> namespace \<Rightarrow> filesystem \<Rightarrow> run" where
  "cmd_record today args fs =
     (case load_data fs of
        (fs', Inl e) \<Rightarrow> (fs', [], Some e)
      | (fs', Inr data) \<Rightarrow>
          (let record_date = (case date_arg args of Some d \<Rightarrow> d | None \<Rightarrow> today);
               (data', d) = get_day data record_date;
               d' = d\<lparr>sets := sets d @ [JInt (elo args)]\<rparr>;
               data'' = data'\<lparr>days := AList.update (isoformat record_date) d' (days data')\<rparr>
           in (save_data data'' fs',
               print (''Recorded set #'' @ py_str (int (length (sets d'))) @ '' for ''
                      @ isoformat record_date @ '' with Elo '' @ py_str (elo args) @ ''.''),
               None)))"

text \<open>The days \<^verbatim>\<open>cmd_summary\<close> keeps.\<close>

definition summary_days ::
  "pydate \<Rightarrow> namespace \<Rightarrow> json EloDay list \<Rightarrow> error + json EloDay list" where
  "summary_days today args ds =
     (case date_arg args of
        Some target \<Rightarrow> Inr (filter (\<lambda>d. isoformat (date d) = isoformat target) ds)
      | None \<Rightarrow>
          (case days_arg args of
             Some n \<Rightarrow>
               (case date_minus_days today (n - 1) of
                  Inl e \<Rightarrow> Inl e
                | Inr cutoff \<Rightarrow> Inr (filter (\<lambda>d. date_le cutoff (date d)) ds))
           | None \<Rightarrow> Inr ds))"

definition cmd_summary :: "pydate \<Rightarrow> namespace \<Rightarrow> filesystem \<Rightarrow> run" where
  "cmd_summary today args fs =
     (case load_data fs of
        (fs', Inl e) \<Rightarrow> (fs', [], Some e)
      | (fs', Inr data) \<Rightarrow>
          (case summary_days today args (sorted_days data) of
             Inl e \<Rightarrow> (fs', [], Some e)
           | Inr ds \<Rightarrow>
               (if ds = [] then (fs', print no_data_message, None)
                else print_table fs' ds)))"

definition cmd_history :: "namespace \<Rightarrow> filesystem \<Rightarrow> run" where
  "cmd_history args fs =
     (case load_data fs of
        (fs', Inl e) \<Rightarrow> (fs', [], Some e)
      | (fs', Inr data) \<Rightarrow>
          (let ds = sorted_days data
           in if ds = [] then (fs', print no_data_message, None)
              else print_table fs'
                     (case limit args of None \<Rightarrow> ds | Some l \<Rightarrow> slice_from (- l) ds)))"

text \<open>\<^verbatim>\<open>cmd_reset\<close>; \<open>line\<close> is what \<^verbatim>\<open>input\<close> reads from standard input, \<open>None\<close>
  at the end of the input. The prompt goes to standard output without a newline.\<close>

definition reset_prompt :: string where
  "reset_prompt = ''This will delete all tracked Elo data. Type 'yes' to confirm: ''"

definition cmd_reset :: "string option \<Rightarrow> filesystem \<Rightarrow> run" where
  "cmd_reset line fs =
     (case line of
        None \<Rightarrow> (fs, reset_prompt, Some EOFError)
      | Some l \<Rightarrow>
          (let confirmation = strip l
           in if lower confirmation \<noteq> ''yes''
              then (fs, reset_prompt @ print ''Reset cancelled.'', None)
              else (save_data \<lparr>days = []\<rparr> fs,
                    reset_prompt @ print ''All Elo data has been cleared.'', None)))"

subsection \<open>cli.py: the parser and main\<close>

text \<open>
  \<^verbatim>\<open>build_parser\<close> registers the sub-commands with \<^verbatim>\<open>required=True\<close>. Of
  \<^verbatim>\<open>argparse\<close> itself only this is modelled: on an empty command line a required
  sub-command is reported as a usage error and the process exits with status 2, while a
  parser whose sub-command is optional returns a namespace without \<^verbatim>\<open>func\<close>. How a
  non-empty command line is read, and the help text \<^verbatim>\<open>print_help\<close> writes, are
  parameters.
\<close>

definition subparsers_required :: bool where
  "subparsers_required = True"

definition parse_args ::
  "(string list \<Rightarrow> error + namespace) \<Rightarrow> string list \<Rightarrow> error + namespace" where
  "parse_args parse_command argv =
     (if argv = []
      then
        (if subparsers_required then Inl (SystemExit 2)
         else Inr \<lparr>func = None, elo = 0, date_arg = None, days_arg = None, limit = None\<rparr>)
      else parse_command argv)"

definition main ::
  "(string list \<Rightarrow> error + namespace) \<Rightarrow> string \<Rightarrow> pydate \<Rightarrow> string option \<Rightarrow> string list
     \<Rightarrow> filesystem \<Rightarrow> run" where
  "main parse_command help today line argv fs =
     (case parse_args parse_command argv of
        Inl e \<Rightarrow> (fs, [], Some e)
      | Inr args \<Rightarrow>
          (case func args of
             None \<Rightarrow> (fs, help, None)
           | Some Record \<Rightarrow> cmd_record today args fs
           | Some Summary \<Rightarrow> cmd_summary today args fs
           | Some History \<Rightarrow> cmd_history args fs
           | Some Reset \<Rightarrow> cmd_reset line fs))"

subsection \<open>The layout of a table, in the words of the specification\<close>

text \<open>
  The width of column \<open>i\<close> is the largest of the length of header \<open>i\<close> and the lengths
  of the cells \<open>i\<close> of all rows; a line is its cells, each left-justified to the width
  of its column, joined with \<^verbatim>\<open>" | "\<close>; the separator is one run of dashes per column,
  joined with \<^verbatim>\<open>"-+-"\<close>; without rows the table is the header line alone.
\<close>

definition column_width :: "string list \<Rightarrow> string list list \<Rightarrow> nat \<Rightarrow> nat" where
  "column_width headers rows i = Max (insert (length (headers ! i)) ((\<lambda>row. length (row ! i)) ` set rows))"

definition table_line :: "nat list \<Rightarrow> string list \<Rightarrow> string" where
  "table_line widths cells = join '' | '' (map (\<lambda>(cell, w). ljust cell w) (zip cells widths))"

definition table_text :: "string list \<Rightarrow> string list list \<Rightarrow> string" where
  "table_text headers rows =
     (let widths = map (column_width headers rows) [0..<length headers]
      in if rows = [] then table_line widths headers
         else join [CHR 0x0A]
                (table_line widths headers
                 # join ''-+-'' (map (\<lambda>w. replicate w (CHR ''-'')) widths)
                 # map (table_line widths) rows))"

subsection \<open>The persisted file, in the words of the specification\<close>

text \<open>
  The format the specification gives for the file: a JSON object whose keys are dates
  \<^verbatim>\<open>YYYY-MM-DD\<close>, each with an object whose \<^verbatim>\<open>"sets"\<close> is a list of integers.
\<close>

definition date_key :: "string \<Rightarrow> bool" where
  "date_key s =
     (length s = 10 \<and> s ! 4 = CHR ''-'' \<and> s ! 7 = CHR ''-''
      \<and> (case (parse_digits (take 4 s), parse_digits (take 2 (drop 5 s)), parse_digits (drop 8 s)) of
            (Some y, Some m, Some d) \<Rightarrow> make_date y m d \<noteq> Inl ValueError
          | _ \<Rightarrow> False))"

fun well_formed_day :: "json \<Rightarrow> bool" where
  "well_formed_day (JObj ms) =
     (case map_of ms ''sets'' of
        Some (JArr xs) \<Rightarrow> list_all (\<lambda>x. as_int x \<noteq> None) xs
      | _ \<Rightarrow> False)"
| "well_formed_day JNull = False"
| "well_formed_day (JBool b) = False"
| "well_formed_day (JInt i) = False"
| "well_formed_day (JFloat q) = False"
| "well_formed_day (JStr s) = False"
| "well_formed_day (JArr xs) = False"

fun well_formed_store :: "json \<Rightarrow> bool" where
  "well_formed_store (JObj ps) = list_all (\<lambda>kv. date_key (fst kv) \<and> well_formed_day (snd kv)) ps"
| "well_formed_store JNull = False"
| "well_formed_store (JBool b) = False"
| "well_formed_store (JInt i) = False"
| "well_formed_store (JFloat q) = False"
| "well_formed_store (JStr s) = False"
| "well_formed_store (JArr xs) = False"

subsection \<open>What a load returns, in the words of the amended claim\<close>

text \<open>
  What \<open>load_data\<close> does accept: an object whose keys are strings that
  \<^verbatim>\<open>date.fromisoformat\<close> reads and whose values are objects; \<^verbatim>\<open>"sets"\<close> may be
  missing, and when present it is a list, a string or an object, with elements of any
  kind.
\<close>

fun iterable :: "json \<Rightarrow> bool" where
  "iterable (JArr xs) = True"
| "iterable (JStr s) = True"
| "iterable (JObj ps) = True"
| "iterable JNull = False"
| "iterable (JBool b) = False"
| "iterable (JInt i) = False"
| "iterable (JFloat q) = False"

fun accepted_day :: "json \<Rightarrow> bool" where
  "accepted_day (JObj ms) = (case map_of ms ''sets'' of None \<Rightarrow> True | Some x \<Rightarrow> iterable x)"
| "accepted_day JNull = False"
| "accepted_day (JBool b) = False"
| "accepted_day (JInt i) = False"
| "accepted_day (JFloat q) = False"
| "accepted_day (JStr s) = False"
| "accepted_day (JArr xs) = False"

fun accepted_store :: "json \<Rightarrow> bool" where
  "accepted_store (JObj ps) =
     list_all (\<lambda>kv. fromisoformat (fst kv) \<noteq> Inl ValueError \<and> accepted_day (snd kv)) ps"
| "accepted_store JNull = False"
| "accepted_store (JBool b) = False"
| "accepted_store (JInt i) = False"
| "accepted_store (JFloat q) = False"
| "accepted_store (JStr s) = False"
| "accepted_store (JArr xs) = False"

text \<open>
  The exception the value of a day raises: \<^verbatim>\<open>AttributeError\<close> when it is not an
  object, \<^verbatim>\<open>TypeError\<close> when its \<^verbatim>\<open>"sets"\<close> is \<^verbatim>\<open>null\<close>, a boolean or a number.
\<close>

fun day_fault :: "json \<Rightarrow> error option" where
  "day_fault (JObj ms) =
     (case map_of ms ''sets'' of
        None \<Rightarrow> None
      | Some x \<Rightarrow> if iterable x then None else Some TypeError)"
| "day_fault JNull = Some AttributeError"
| "day_fault (JBool b) = Some AttributeError"
| "day_fault (JInt i) = Some AttributeError"
| "day_fault (JFloat q) = Some AttributeError"
| "day_fault (JStr s) = Some AttributeError"
| "day_fault (JArr xs) = Some AttributeError"

text \<open>
  The sets sequence read from the value of a day: empty without \<^verbatim>\<open>"sets"\<close>; the
  elements of a list as they are written, of whatever kind; the one-character strings
  of a string; the keys of an object.
\<close>

fun sets_read :: "json \<Rightarrow> json list" where
  "sets_read (JObj ms) =
     (case map_of ms ''sets'' of
        None \<Rightarrow> []
      | Some (JArr xs) \<Rightarrow> xs
      | Some (JStr s) \<Rightarrow> map (\<lambda>c. JStr [c]) s
      | Some (JObj ps) \<Rightarrow> map (\<lambda>kv. JStr (fst kv)) ps
      | Some _ \<Rightarrow> [])"
| "sets_read JNull = []"
| "sets_read (JBool b) = []"
| "sets_read (JInt i) = []"
| "sets_read (JFloat q) = []"
| "sets_read (JStr s) = []"
| "sets_read (JArr xs) = []"

text \<open>
  The members of the top-level object in file order: the first member at fault decides
  the exception (\<^verbatim>\<open>ValueError\<close> for a key that is no date, else the fault of the
  value); without a fault there is one day per member, dated by its key.
\<close>

fun load_members :: "(string \<times> json) list \<Rightarrow> error + (string \<times> json EloDay) list" where
  "load_members [] = Inr []"
| "load_members ((k, v) # rest) =
     (case fromisoformat k of
        Inl e \<Rightarrow> Inl ValueError
      | Inr d \<Rightarrow>
          (case day_fault v of
             Some e \<Rightarrow> Inl e
           | None \<Rightarrow>
               (case load_members rest of
                  Inl e \<Rightarrow> Inl e
                | Inr ds \<Rightarrow> Inr ((k, \<lparr>date = d, sets = sets_read v\<rparr>) # ds))))"

fun load_result :: "json \<Rightarrow> error + json EloData" where
  "load_result (JObj ps) =
     (case load_members ps of Inl e \<Rightarrow> Inl e | Inr ds \<Rightarrow> Inr \<lparr>days = ds\<rparr>)"
| "load_result JNull = Inl AttributeError"
| "load_result (JBool b) = Inl AttributeError"
| "load_result (JInt i) = Inl AttributeError"
| "load_result (JFloat q) = Inl AttributeError"
| "load_result (JStr s) = Inl AttributeError"
| "load_result (JArr xs) = Inl AttributeError"

subsection \<open>The confirmation, in the words of the specification\<close>

text \<open>A string that is \<^verbatim>\<open>yes\<close> up to the case of its letters.\<close>

definition matches_yes :: "string \<Rightarrow> bool" where
  "matches_yes s = (s \<in> set [''yes'', ''yeS'', ''yEs'', ''yES'', ''Yes'', ''YeS'', ''YEs'', ''YES''])"

section \<open>Properties\<close>

subsection \<open>Derived statistics of a day\<close>

lemma fold_max_eq: "fold (\<lambda>y acc. if acc < y then y else acc) xs (x::int) = Max (insert x (set xs))"
proof (induction xs arbitrary: x)
  case Nil
  show ?case by simp
next
  case (Cons y ys)
  have "(if x < y then y else x) = max x y" by (simp add: max_def)
  moreover have "Max (insert (max x y) (set ys)) = Max (insert x (insert y (set ys)))"
    by (cases "set ys = {}") (simp_all add: max.assoc)
  ultimately show ?case using Cons by simp
qed

lemma fold_min_eq: "fold (\<lambda>y acc. if y < acc then y else acc) xs (x::int) = Min (insert x (set xs))"
proof (induction xs arbitrary: x)
  case Nil
  show ?case by simp
next
  case (Cons y ys)
  have "(if y < x then y else x) = min x y" by (simp add: min_def)
  moreover have "Min (insert (min x y) (set ys)) = Min (insert x (insert y (set ys)))"
    by (cases "set ys = {}") (simp_all add: min.assoc)
  ultimately show ?case using Cons by simp
qed
lemma py_max_eq: "xs \<noteq> [] \<Longrightarrow> py_max xs = Max (set xs)"
  by (cases xs) (simp_all add: fold_max_eq)

lemma py_min_eq: "xs \<noteq> [] \<Longrightarrow> py_min xs = Min (set xs)"
  by (cases xs) (simp_all add: fold_min_eq)

text \<open>
  Claim C1. For a day whose sets sequence \<open>S\<close> is not empty, start is the first element
  of \<open>S\<close>, end the last, change is end minus start, best is the maximum of \<open>S\<close> and
  worst its minimum; and each of the five is \<open>None\<close> exactly when \<open>S\<close> is empty.
\<close>

theorem EloDay_statistics:
  "(sets d \<noteq> [] \<longrightarrow>
      start d = Some (hd (sets d)) \<and> end' d = Some (last (sets d))
      \<and> change d = Some (the (end' d) - the (start d))
      \<and> best d = Some (Max (set (sets d))) \<and> worst d = Some (Min (set (sets d))))
   \<and> ((start d = None) = (sets d = [])) \<and> ((end' d = None) = (sets d = []))
   \<and> ((change d = None) = (sets d = [])) \<and> ((best d = None) = (sets d = []))
   \<and> ((worst d = None) = (sets d = []))"
  by (simp add: start_def end'_def change_def best_def worst_def py_max_eq py_min_eq)

theorem EloDay_statistics_witness:
  "start \<lparr>date = \<lparr>year = 2024, month = 1, day = 10\<rparr>, sets = [1500, 1550, 1490]\<rparr> = Some 1500
   \<and> end' \<lparr>date = \<lparr>year = 2024, month = 1, day = 10\<rparr>, sets = [1500, 1550, 1490]\<rparr> = Some 1490
   \<and> change \<lparr>date = \<lparr>year = 2024, month = 1, day = 10\<rparr>, sets = [1500, 1550, 1490]\<rparr> = Some (- 10)
   \<and> best \<lparr>date = \<lparr>year = 2024, month = 1, day = 10\<rparr>, sets = [1500, 1550, 1490]\<rparr> = Some 1550
   \<and> worst \<lparr>date = \<lparr>year = 2024, month = 1, day = 10\<rparr>, sets = [1500, 1550, 1490]\<rparr> = Some 1490"
  using EloDay_statistics [of "\<lparr>date = \<lparr>year = 2024, month = 1, day = 10\<rparr>, sets = [1500, 1550, 1490]\<rparr>"]
  by simp

subsection \<open>The table\<close>

lemma widen_eq:
  "idx + length vs = length ws \<Longrightarrow>
   widen ws idx vs = Inr (take idx ws @ map (\<lambda>(w, v). max w (length v)) (zip (drop idx ws) vs))"
proof (induction vs arbitrary: ws idx)
  case Nil
  then show ?case by simp
next
  case (Cons v vs)
  then have lt: "idx < length ws" by simp
  have len: "Suc idx + length vs = length (ws[idx := max (ws ! idx) (length v)])"
    using Cons.prems by simp
  have d: "drop idx ws = ws ! idx # drop (Suc idx) ws"
    using lt by (simp add: Cons_nth_drop_Suc)
  show ?case
    using lt Cons.IH [OF len] d
    by (simp add: take_Suc_conv_app_nth drop_update_cancel)
qed

lemma widen_full:
  "length row = length ws \<Longrightarrow> widen ws 0 row = Inr (map (\<lambda>(w, v). max w (length v)) (zip ws row))"
  using widen_eq [of 0 row ws] by simp

lemma scan_rows_eq:
  "\<forall>row \<in> set rows. length row = length ws \<Longrightarrow>
   scan_rows ws rows = Inr (fold (\<lambda>row ws. map (\<lambda>(w, v). max w (length v)) (zip ws row)) rows ws)"
  by (induction rows arbitrary: ws) (simp_all add: widen_full)

lemma fold_widths_length:
  "\<forall>row \<in> set rows. length row = length ws \<Longrightarrow>
   length (fold (\<lambda>row ws. map (\<lambda>(w, v). max w (length v)) (zip ws row)) rows ws) = length ws"
  by (induction rows arbitrary: ws) simp_all

lemma fold_widths_nth:
  "\<forall>row \<in> set rows. length row = length ws \<Longrightarrow> i < length ws \<Longrightarrow>
   fold (\<lambda>row ws. map (\<lambda>(w, v). max w (length v)) (zip ws row)) rows ws ! i
   = Max (insert (ws ! i) ((\<lambda>row. length (row ! i)) ` set rows))"
proof (induction rows arbitrary: ws)
  case Nil
  then show ?case by simp
next
  case (Cons row rows)
  let ?ws' = "map (\<lambda>(w, v). max w (length v)) (zip ws row)"
  have l: "length ?ws' = length ws" using Cons.prems by simp
  have "fold (\<lambda>row ws. map (\<lambda>(w, v). max w (length v)) (zip ws row)) rows ?ws' ! i
        = Max (insert (?ws' ! i) ((\<lambda>row. length (row ! i)) ` set rows))"
    using Cons.prems l by (intro Cons.IH) simp_all
  moreover have "?ws' ! i = max (ws ! i) (length (row ! i))"
    using Cons.prems by simp
  moreover have "Max (insert (max (ws ! i) (length (row ! i))) ((\<lambda>row. length (row ! i)) ` set rows))
        = Max (insert (ws ! i) (insert (length (row ! i)) ((\<lambda>row. length (row ! i)) ` set rows)))"
    by (cases "set rows = {}") (simp_all add: max.assoc)
  ultimately show ?case by simp
qed

lemma scan_rows_widths:
  assumes "\<forall>row \<in> set rows. length row = length headers"
  shows "scan_rows (map length headers) rows = Inr (map (column_width headers rows) [0..<length headers])"
proof -
  let ?f = "fold (\<lambda>row ws. map (\<lambda>(w, v). max w (length v)) (zip ws row)) rows (map length headers)"
  have a: "\<forall>row \<in> set rows. length row = length (map length headers)" using assms by simp
  have "?f = map (column_width headers rows) [0..<length headers]"
  proof (rule nth_equalityI)
    show "length ?f = length (map (column_width headers rows) [0..<length headers])"
      using fold_widths_length [OF a] by simp
  next
    fix i assume "i < length ?f"
    then have i: "i < length (map length headers)" using fold_widths_length [OF a] by simp
    show "?f ! i = map (column_width headers rows) [0..<length headers] ! i"
      using fold_widths_nth [OF a i] i by (simp add: column_width_def)
  qed
  then show ?thesis using scan_rows_eq [OF a] by simp
qed

lemma format_parts_eq:
  "idx + length vs \<le> length ws \<Longrightarrow>
   format_parts ws idx vs = Inr (map (\<lambda>(cell, w). ljust cell w) (zip vs (drop idx ws)))"
proof (induction vs arbitrary: idx)
  case Nil
  then show ?case by simp
next
  case (Cons v vs)
  then have lt: "idx < length ws" by simp
  have d: "drop idx ws = ws ! idx # drop (Suc idx) ws"
    using lt by (simp add: Cons_nth_drop_Suc)
  show ?case using lt Cons d by simp
qed

lemma format_row_eq:
  "length row \<le> length ws \<Longrightarrow> format_row ws row = Inr (table_line ws row)"
  by (simp add: format_row_def table_line_def format_parts_eq)

lemma format_rows_eq:
  "\<forall>row \<in> set rows. length row \<le> length ws \<Longrightarrow>
   format_rows ws rows = Inr (map (table_line ws) rows)"
  by (induction rows) (simp_all add: format_row_eq)

lemma ljust_own_length:
  "map (\<lambda>(cell, w). ljust cell w) (zip hs (map length hs)) = hs"
  by (induction hs) (simp_all add: ljust_def)

lemma column_width_no_rows:
  "map (column_width headers []) [0..<length headers] = map length headers"
  by (rule nth_equalityI) (simp_all add: column_width_def)

lemma render_table_text:
  assumes "\<forall>row \<in> set rows. length row = length headers"
  shows "render_table headers rows = Inr (table_text headers rows)"
proof -
  let ?ws = "map (column_width headers rows) [0..<length headers]"
  have rows_fit: "\<forall>row \<in> set rows. length row \<le> length ?ws" using assms by simp
  have "format_row ?ws headers = Inr (table_line ?ws headers)"
    by (simp add: format_row_eq)
  moreover have "format_rows ?ws rows = Inr (map (table_line ?ws) rows)"
    using rows_fit by (rule format_rows_eq)
  ultimately show ?thesis
    using scan_rows_widths [OF assms]
    by (simp add: render_table_def table_text_def Let_def)
qed

lemma render_table_no_rows: "render_table headers [] = Inr (join '' | '' headers)"
proof -
  have "format_row (map length headers) headers = Inr (join '' | '' headers)"
    by (simp add: format_row_eq table_line_def ljust_own_length)
  then show ?thesis by (simp add: render_table_def)
qed

text \<open>
  Claim C8. When every row has as many cells as there are headers, \<open>render_table\<close>
  returns the table of the specification: column widths that are the maximum of the
  header's length and the lengths of the column's cells, every cell left-justified to
  the width of its column, columns joined with \<^verbatim>\<open>" | "\<close>, a separator of dashes joined
  with \<^verbatim>\<open>"-+-"\<close>; and with no rows at all the result is the header line alone, with
  no separator and no body.
\<close>

theorem render_table_layout:
  assumes "\<forall>row \<in> set rows. length row = length headers"
  shows "render_table headers rows = Inr (table_text headers rows)
         \<and> render_table headers [] = Inr (join '' | '' headers)"
  using render_table_text [OF assms] render_table_no_rows by simp

theorem render_table_layout_witness:
  "render_table [''Date'', ''Sets''] [[''2024-01-10'', ''3''], [''2024-01-11'', ''12'']]
     = Inr (''Date       | Sets'' @ [CHR 0x0A] @ ''-----------+-----'' @ [CHR 0x0A]
            @ ''2024-01-10 | 3   '' @ [CHR 0x0A] @ ''2024-01-11 | 12  '')
   \<and> render_table [''Date'', ''Sets''] [] = Inr ''Date | Sets''"
proof -
  have h: "\<forall>row \<in> set [[''2024-01-10'', ''3''], [''2024-01-11'', ''12'']]. length row = length [''Date'', ''Sets'']"
    by simp
  have t: "table_text [''Date'', ''Sets''] [[''2024-01-10'', ''3''], [''2024-01-11'', ''12'']]
     = ''Date       | Sets'' @ [CHR 0x0A] @ ''-----------+-----'' @ [CHR 0x0A]
            @ ''2024-01-10 | 3   '' @ [CHR 0x0A] @ ''2024-01-11 | 12  ''"
    by (simp add: table_text_def table_line_def column_width_def ljust_def upt_rec)
  show ?thesis using render_table_layout [OF h] t by simp
qed

subsection \<open>Saving and loading\<close>

lemma update_fresh: "k \<notin> fst ` set al \<Longrightarrow> AList.update k v al = al @ [(k, v)]"
  by (induction al) auto

lemma fold_update_distinct:
  "distinct (map fst (acc @ ps)) \<Longrightarrow>
   fold (\<lambda>kv d. AList.update (fst kv) (snd kv) d) ps acc = acc @ ps"
proof (induction ps arbitrary: acc)
  case Nil
  then show ?case by simp
next
  case (Cons p ps)
  have fresh: "fst p \<notin> fst ` set acc" using Cons.prems by auto
  have "distinct (map fst ((acc @ [p]) @ ps))" using Cons.prems by simp
  from Cons.IH [OF this] show ?case
    using update_fresh [OF fresh, of "snd p"] by simp
qed

lemma dict_of_pairs_distinct: "distinct (map fst ps) \<Longrightarrow> dict_of_pairs ps = ps"
  using fold_update_distinct [of "[]" ps] by (simp add: dict_of_pairs_def)

lemma as_int_json_load: "as_int v \<noteq> None \<Longrightarrow> json_load v = v"
  by (cases v) simp_all

lemma as_int_json_dump: "as_int v \<noteq> None \<Longrightarrow> json_dump v = v"
  by (cases v) simp_all

lemma int_day_sets_load: "int_day d \<noteq> None \<Longrightarrow> map json_load (sets d) = sets d"
  by (auto simp: int_day_def list_all_iff as_int_json_load map_idI split: if_splits)

lemma int_day_sets_dump: "int_day d \<noteq> None \<Longrightarrow> map json_dump (sets d) = sets d"
  by (auto simp: int_day_def list_all_iff as_int_json_dump map_idI split: if_splits)

lemma json_load_to_dict: "int_day d \<noteq> None \<Longrightarrow> json_load (to_dict d) = to_dict d"
  by (simp add: to_dict_def dict_of_pairs_def int_day_sets_load)

lemma json_dump_to_dict: "int_day d \<noteq> None \<Longrightarrow> json_dump (to_dict d) = to_dict d"
  by (simp add: to_dict_def int_day_sets_dump)

lemma from_dict_to_dict: "from_dict (date d) (to_dict d) = Inr (d :: json EloDay)"
  by (simp add: to_dict_def)

lemma insort_key_map_snd:
  "insort_key fst (k, g d) (map (\<lambda>(k, d). (k, g d)) ys) = map (\<lambda>(k, d). (k, g d)) (insort_key fst (k, d) ys)"
  by (induction ys) auto

lemma sort_key_map_snd:
  "sort_key fst (map (\<lambda>(k, d). (k, g d)) xs) = map (\<lambda>(k, d). (k, g d)) (sort_key fst xs)"
  by (induction xs) (auto simp: insort_key_map_snd)

lemma map_to_dict_cong:
  "\<forall>(k, d) \<in> set xs. f d = g d \<Longrightarrow> map (\<lambda>(k, d). (k, f d)) xs = map (\<lambda>(k, d). (k, g d)) xs"
  by (induction xs) auto

lemma map_fst_map_snd: "map fst (map (\<lambda>(k, d). (k, g d)) xs) = map fst xs"
  by (induction xs) auto

lemma json_dump_to_json:
  assumes "\<forall>(k, d) \<in> set (days D). int_day d \<noteq> None"
  shows "json_dump (to_json D) = to_json \<lparr>days = sort_key fst (days D)\<rparr>"
proof -
  have "map (\<lambda>(k, v). (k, json_dump v)) (map (\<lambda>(k, d). (k, to_dict d)) (days D))
        = map (\<lambda>(k, d). (k, json_dump (to_dict d))) (days D)"
    by (simp add: case_prod_unfold)
  also have "\<dots> = map (\<lambda>(k, d). (k, to_dict d)) (days D)"
    using assms by (intro map_to_dict_cong) (auto simp: json_dump_to_dict)
  finally have m: "map (\<lambda>(k, v). (k, json_dump v)) (map (\<lambda>(k, d). (k, to_dict d)) (days D))
        = map (\<lambda>(k, d). (k, to_dict d)) (days D)" .
  have "json_dump (to_json D)
        = JObj (sort_key fst (map (\<lambda>(k, v). (k, json_dump v)) (map (\<lambda>(k, d). (k, to_dict d)) (days D))))"
    by (simp only: to_json_def json_dump.simps)
  also have "\<dots> = JObj (map (\<lambda>(k, d). (k, to_dict d)) (sort_key fst (days D)))"
    by (simp only: m sort_key_map_snd)
  also have "\<dots> = to_json \<lparr>days = sort_key fst (days D)\<rparr>"
    by (simp add: to_json_def)
  finally show ?thesis .
qed

lemma json_load_to_json:
  assumes "distinct (map fst (days D))" and "\<forall>(k, d) \<in> set (days D). int_day d \<noteq> None"
  shows "json_load (to_json D) = to_json D"
proof -
  have "map (\<lambda>(k, v). (k, json_load v)) (map (\<lambda>(k, d). (k, to_dict d)) (days D))
        = map (\<lambda>(k, d). (k, json_load (to_dict d))) (days D)"
    by (simp add: case_prod_unfold)
  also have "\<dots> = map (\<lambda>(k, d). (k, to_dict d)) (days D)"
    using assms(2) by (intro map_to_dict_cong) (auto simp: json_load_to_dict)
  finally have m: "map (\<lambda>(k, v). (k, json_load v)) (map (\<lambda>(k, d). (k, to_dict d)) (days D))
        = map (\<lambda>(k, d). (k, to_dict d)) (days D)" .
  have "distinct (map fst (map (\<lambda>(k, d). (k, to_dict d)) (days D)))"
    using assms(1) by (simp only: map_fst_map_snd)
  then have d: "dict_of_pairs (map (\<lambda>(k, d). (k, to_dict d)) (days D)) = map (\<lambda>(k, d). (k, to_dict d)) (days D)"
    by (rule dict_of_pairs_distinct)
  have "json_load (to_json D)
        = JObj (dict_of_pairs (map (\<lambda>(k, v). (k, json_load v)) (map (\<lambda>(k, d). (k, to_dict d)) (days D))))"
    by (simp only: to_json_def json_load.simps)
  also have "\<dots> = to_json D"
    by (simp only: m d to_json_def)
  finally show ?thesis .
qed

lemma from_json_items_to_dict:
  assumes "distinct (map fst (acc @ xs))"
    and "\<forall>(k, d) \<in> set xs. fromisoformat k = Inr (date d)"
  shows "from_json_items (map (\<lambda>(k, d). (k, to_dict d)) xs) acc = Inr (acc @ xs)"
  using assms
proof (induction xs arbitrary: acc)
  case Nil
  then show ?case by simp
next
  case (Cons x xs)
  obtain k d where x: "x = (k, d)" by (cases x)
  have fresh: "k \<notin> fst ` set acc" using Cons.prems(1) x by auto
  have iso: "fromisoformat k = Inr (date d)" using Cons.prems(2) x by simp
  have "distinct (map fst ((acc @ [(k, d)]) @ xs))" using Cons.prems(1) x by simp
  moreover have "\<forall>(k, d) \<in> set xs. fromisoformat k = Inr (date d)" using Cons.prems(2) by simp
  ultimately have "from_json_items (map (\<lambda>(k, d). (k, to_dict d)) xs) (acc @ [(k, d)]) = Inr ((acc @ [(k, d)]) @ xs)"
    by (rule Cons.IH)
  then show ?case
    using x iso update_fresh [OF fresh, of d] by (simp add: from_dict_to_dict)
qed

lemma from_json_to_json:
  assumes "distinct (map fst (days D))"
    and "\<forall>(k, d) \<in> set (days D). fromisoformat k = Inr (date d)"
  shows "from_json (to_json D) = Inr (D :: json EloData)"
  using from_json_items_to_dict [of "[]" "days D"] assms by (simp add: to_json_def)

lemma save_data_eq: "save_data D fs = Dir (Some (Json (json_dump (to_json D))))"
  by (cases fs) (simp_all add: save_data_def)

lemma load_data_json: "load_data (Dir (Some (Json doc))) = (Dir (Some (Json doc)), from_json (json_load doc))"
  by (simp add: load_data_def)

text \<open>
  Claim C2. Let \<open>D\<close> be a store whose days all hold integer sets sequences, each day
  under the ISO string of its date and no key twice (what a \<^verbatim>\<open>dict\<close> filled by
  \<^verbatim>\<open>get_day\<close> or \<^verbatim>\<open>from_json\<close> is). Saving \<open>D\<close> and loading the saved file
  raises nothing, leaves the file as it is and returns a store \<open>D'\<close> with the keys of
  \<open>D\<close>, each mapped to the same day with the same sets sequence in the same order; and
  saving \<open>D'\<close> writes the content the first save wrote. (The sequences need not even be
  non-empty.)
\<close>

theorem save_load_save_round_trip:
  assumes "distinct (map fst (days D))"
    and "\<forall>(k, d) \<in> set (days D). fromisoformat k = Inr (date d) \<and> int_day d \<noteq> None"
  shows "\<exists>D'. load_data (save_data D fs) = (save_data D fs, Inr D')
            \<and> map_of (days D') = map_of (days D)
            \<and> save_data D' (save_data D fs) = save_data D fs"
proof -
  let ?S = "\<lparr>days = sort_key fst (days D)\<rparr> :: json EloData"
  have ints: "\<forall>(k, d) \<in> set (days D). int_day d \<noteq> None" using assms(2) by auto
  have iso: "\<forall>(k, d) \<in> set (days D). fromisoformat k = Inr (date d)" using assms(2) by auto
  have dS: "distinct (map fst (days ?S))"
    using assms(1) by (simp add: distinct_map inj_on_def)
  have intS: "\<forall>(k, d) \<in> set (days ?S). int_day d \<noteq> None" using ints by simp
  have isoS: "\<forall>(k, d) \<in> set (days ?S). fromisoformat k = Inr (date d)" using iso by simp
  have dump: "json_dump (to_json D) = to_json ?S" using ints by (rule json_dump_to_json)
  have "load_data (save_data D fs) = (save_data D fs, from_json (json_load (to_json ?S)))"
    by (simp add: save_data_eq load_data_json dump)
  then have l: "load_data (save_data D fs) = (save_data D fs, Inr ?S)"
    using json_load_to_json [OF dS intS] from_json_to_json [OF dS isoS] by simp
  have "sorted (map fst (sort_key fst (days D)))" by simp
  then have "sort_key fst (sort_key fst (days D)) = sort_key fst (days D)"
    by (rule sort_key_id_if_sorted)
  then have "json_dump (to_json ?S) = to_json ?S"
    using json_dump_to_json [OF intS] by simp
  then have s: "save_data ?S (save_data D fs) = save_data D fs"
    by (simp add: save_data_eq dump)
  have m: "map_of (days ?S) = map_of (days D)"
    using assms(1) dS by (intro map_of_inject_set [THEN iffD2]) simp_all
  from l s m show ?thesis by blast
qed
theorem save_load_save_round_trip_witness:
  "\<exists>D'. load_data (save_data 
     \<lparr>days = [(''2024-01-10'', \<lparr>date = \<lparr>year = 2024, month = 1, day = 10\<rparr>, sets = [JInt 1500, JInt 1550, JInt 1490]\<rparr>),
              (''2024-01-02'', \<lparr>date = \<lparr>year = 2024, month = 1, day = 2\<rparr>, sets = [JInt 1480]\<rparr>)]\<rparr> No_dir) = (save_data 
     \<lparr>days = [(''2024-01-10'', \<lparr>date = \<lparr>year = 2024, month = 1, day = 10\<rparr>, sets = [JInt 1500, JInt 1550, JInt 1490]\<rparr>),
              (''2024-01-02'', \<lparr>date = \<lparr>year = 2024, month = 1, day = 2\<rparr>, sets = [JInt 1480]\<rparr>)]\<rparr> No_dir, Inr D')
      \<and> map_of (days D') = map_of (days 
     \<lparr>days = [(''2024-01-10'', \<lparr>date = \<lparr>year = 2024, month = 1, day = 10\<rparr>, sets = [JInt 1500, JInt 1550, JInt 1490]\<rparr>),
              (''2024-01-02'', \<lparr>date = \<lparr>year = 2024, month = 1, day = 2\<rparr>, sets = [JInt 1480]\<rparr>)]\<rparr>)
      \<and> save_data D' (save_data 
     \<lparr>days = [(''2024-01-10'', \<lparr>date = \<lparr>year = 2024, month = 1, day = 10\<rparr>, sets = [JInt 1500, JInt 1550, JInt 1490]\<rparr>),
              (''2024-01-02'', \<lparr>date = \<lparr>year = 2024, month = 1, day = 2\<rparr>, sets = [JInt 1480]\<rparr>)]\<rparr> No_dir) = save_data 
     \<lparr>days = [(''2024-01-10'', \<lparr>date = \<lparr>year = 2024, month = 1, day = 10\<rparr>, sets = [JInt 1500, JInt 1550, JInt 1490]\<rparr>),
              (''2024-01-02'', \<lparr>date = \<lparr>year = 2024, month = 1, day = 2\<rparr>, sets = [JInt 1480]\<rparr>)]\<rparr> No_dir"
proof -
  have h1: "distinct (map fst (days 
     \<lparr>days = [(''2024-01-10'', \<lparr>date = \<lparr>year = 2024, month = 1, day = 10\<rparr>, sets = [JInt 1500, JInt 1550, JInt 1490]\<rparr>),
              (''2024-01-02'', \<lparr>date = \<lparr>year = 2024, month = 1, day = 2\<rparr>, sets = [JInt 1480]\<rparr>)]\<rparr>))"
    by simp
  have h2: "\<forall>(k, d) \<in> set (days 
     \<lparr>days = [(''2024-01-10'', \<lparr>date = \<lparr>year = 2024, month = 1, day = 10\<rparr>, sets = [JInt 1500, JInt 1550, JInt 1490]\<rparr>),
              (''2024-01-02'', \<lparr>date = \<lparr>year = 2024, month = 1, day = 2\<rparr>, sets = [JInt 1480]\<rparr>)]\<rparr>). fromisoformat k = Inr (date d) \<and> int_day d \<noteq> None"
    by code_simp
  show ?thesis using save_load_save_round_trip [OF h1 h2] .
qed

subsection \<open>What load_data raises\<close>

lemma make_date_error: "make_date y m d = Inl e \<Longrightarrow> e = ValueError"
  by (simp add: make_date_def split: if_splits)

lemma iso_to_date_error: "iso_to_date y w d = Inl e \<Longrightarrow> e = ValueError"
  by (auto simp: iso_to_date_def Let_def split: if_splits dest: make_date_error)

lemma fromisoformat_error: "fromisoformat k = Inl e \<Longrightarrow> e = ValueError"
  by (auto simp: fromisoformat_def Let_def split: if_splits option.splits
           dest: make_date_error iso_to_date_error)

lemma py_list_Inr: "py_list x = Inr xs \<Longrightarrow> iterable x"
  by (cases x) simp_all

lemma py_list_Inl: "py_list x = Inl e \<Longrightarrow> \<not> iterable x"
  by (cases x) simp_all

lemma from_dict_accepted: "(\<exists>e. from_dict d v = Inl e) = (\<not> accepted_day v)"
proof (cases v)
  case (JObj ms)
  then show ?thesis
    by (auto split: option.splits sum.splits dest: py_list_Inr py_list_Inl)
qed simp_all

lemma from_json_items_accepted:
  "(\<exists>e. from_json_items ps acc = Inl e)
   = (\<not> list_all (\<lambda>kv. fromisoformat (fst kv) \<noteq> Inl ValueError \<and> accepted_day (snd kv)) ps)"
proof (induction ps arbitrary: acc)
  case Nil
  show ?case by simp
next
  case (Cons p ps)
  obtain k v where p: "p = (k, v)" by (cases p)
  show ?case
  proof (cases "fromisoformat k")
    case (Inl e)
    then show ?thesis using p fromisoformat_error [OF Inl] by simp
  next
    case (Inr d)
    show ?thesis
    proof (cases "from_dict d v")
      case (Inl e)
      then have "\<not> accepted_day v" using from_dict_accepted [of d v] by auto
      then show ?thesis using p Inr Inl by simp
    next
      case r: (Inr x)
      then have "accepted_day v" using from_dict_accepted [of d v] by auto
      then show ?thesis using p Inr r Cons.IH by simp
    qed
  qed
qed

lemma from_json_accepted: "(\<exists>e. from_json obj = Inl e) = (\<not> accepted_store obj)"
proof (cases obj)
  case (JObj ps)
  then show ?thesis
    using from_json_items_accepted [of ps "[]"] by (auto split: sum.splits)
qed simp_all

lemma dict_of_pairs_keys: "distinct (map fst (dict_of_pairs ps))"
proof -
  have "distinct (map fst acc) \<Longrightarrow> distinct (map fst (fold (\<lambda>kv d. AList.update (fst kv) (snd kv) d) ps acc))"
    for acc :: "(string \<times> 'a) list"
    by (induction ps arbitrary: acc) (simp_all add: distinct_update)
  from this [of "[]"] show ?thesis by (simp add: dict_of_pairs_def)
qed

lemma json_load_keys: "json_load doc = JObj ps \<Longrightarrow> distinct (map fst ps)"
  by (cases doc) (auto simp: dict_of_pairs_keys)

lemma py_list_sets_read:
  "map_of ms ''sets'' = Some x \<Longrightarrow>
   py_list x = (if iterable x then Inr (sets_read (JObj ms)) else Inl TypeError)"
  by (cases x) simp_all

lemma from_dict_result:
  "from_dict d v = (case day_fault v of Some e \<Rightarrow> Inl e | None \<Rightarrow> Inr \<lparr>date = d, sets = sets_read v\<rparr>)"
proof (cases v)
  case (JObj ms)
  show ?thesis
  proof (cases "map_of ms ''sets''")
    case None
    with JObj show ?thesis by simp
  next
    case (Some x)
    with JObj py_list_sets_read [OF Some] show ?thesis by simp
  qed
qed simp_all

lemma from_json_items_members:
  "distinct (map fst acc @ map fst ps) \<Longrightarrow>
   from_json_items ps acc = (case load_members ps of Inl e \<Rightarrow> Inl e | Inr ds \<Rightarrow> Inr (acc @ ds))"
proof (induction ps arbitrary: acc)
  case Nil
  show ?case by simp
next
  case (Cons p ps)
  obtain k v where p: "p = (k, v)" by (cases p)
  show ?case
  proof (cases "fromisoformat k")
    case (Inl e)
    then show ?thesis using p fromisoformat_error [OF Inl] by simp
  next
    case (Inr d)
    show ?thesis
    proof (cases "day_fault v")
      case (Some e)
      then show ?thesis using p Inr by (simp add: from_dict_result)
    next
      case None
      let ?x = "\<lparr>date = d, sets = sets_read v\<rparr>"
      have fresh: "k \<notin> fst ` set acc" using Cons.prems p by auto
      have "distinct (map fst (acc @ [(k, ?x)]) @ map fst ps)" using Cons.prems p by simp
      from Cons.IH [OF this]
      have "from_json_items ps (acc @ [(k, ?x)])
            = (case load_members ps of Inl e \<Rightarrow> Inl e | Inr ds \<Rightarrow> Inr ((acc @ [(k, ?x)]) @ ds))" .
      then show ?thesis
        using p Inr None update_fresh [OF fresh, of ?x]
        by (simp add: from_dict_result split: sum.splits)
    qed
  qed
qed

lemma from_json_result: "json_load doc = obj \<Longrightarrow> from_json obj = load_result obj"
proof (cases obj)
  case (JObj ps)
  assume "json_load doc = obj"
  with JObj have "distinct (map fst ps)" using json_load_keys by simp
  then have "from_json_items ps [] = (case load_members ps of Inl e \<Rightarrow> Inl e | Inr ds \<Rightarrow> Inr ([] @ ds))"
    by (intro from_json_items_members) simp
  with JObj show ?thesis by (simp split: sum.splits)
qed simp_all

text \<open>
  Claim C7, as amended. Without the file (and without the directory) \<open>load_data\<close>
  returns the empty store and raises nothing. With the file it leaves the file as it
  was, and it raises exactly when the text is not JSON (\<^verbatim>\<open>JSONDecodeError\<close>), or the
  top-level value is not an object (\<^verbatim>\<open>AttributeError\<close>), or a member of the object
  is at fault, the first such member in file order deciding the exception: its key is a
  string that \<^verbatim>\<open>date.fromisoformat\<close> rejects (\<^verbatim>\<open>ValueError\<close>), or its value is
  not an object (\<^verbatim>\<open>AttributeError\<close>), or its \<^verbatim>\<open>"sets"\<close> is \<^verbatim>\<open>null\<close>, a
  boolean or a number (\<^verbatim>\<open>TypeError\<close>). Otherwise it returns the store with one
  day per key, dated by the key, whose sets sequence is empty when \<^verbatim>\<open>"sets"\<close> is
  missing, the list as written when it is a list (its elements are kept, of whatever
  kind), the one-character strings of a string, and the keys of an object.
\<close>

theorem load_data_outcomes:
  "load_data No_dir = (Dir None, Inr \<lparr>days = []\<rparr>)
   \<and> load_data (Dir None) = (Dir None, Inr \<lparr>days = []\<rparr>)
   \<and> load_data (Dir (Some Not_json)) = (Dir (Some Not_json), Inl JSONDecodeError)
   \<and> load_data (Dir (Some (Json doc))) = (Dir (Some (Json doc)), load_result (json_load doc))
   \<and> fst (load_data (Dir (Some (Json doc)))) = Dir (Some (Json doc))
   \<and> (\<exists>e. snd (load_data (Dir (Some (Json doc)))) = Inl e) = (\<not> accepted_store (json_load doc))"
proof -
  have l: "load_data (Dir (Some (Json doc))) = (Dir (Some (Json doc)), from_json (json_load doc))"
    by (simp add: load_data_def)
  have r: "from_json (json_load doc) = load_result (json_load doc)"
    by (rule from_json_result [OF refl])
  have a: "(\<exists>e. snd (load_data (Dir (Some (Json doc)))) = Inl e) = (\<not> accepted_store (json_load doc))"
    by (simp only: l snd_conv from_json_accepted)
  have e: "load_data No_dir = (Dir None, Inr \<lparr>days = []\<rparr>)
      \<and> load_data (Dir None) = (Dir None, Inr \<lparr>days = []\<rparr>)
      \<and> load_data (Dir (Some Not_json)) = (Dir (Some Not_json), Inl JSONDecodeError)"
    by (simp add: load_data_def)
  from l r a e show ?thesis by simp
qed

theorem load_data_outcomes_witness:
  "load_data (Dir (Some (Json (JObj [(''2024-01-10'', JObj []),
              (''20240111'', JObj [(''sets'', JStr ''ab'')]),
              (''2024-W02-5'', JObj [(''sets'', JObj [(''x'', JInt 1), (''y'', JInt 2)])]),
              (''2024-01-13'', JObj [(''note'', JStr ''n''), (''sets'', JArr [JInt 1500, JStr ''x'', JNull])])]))))
   = (Dir (Some (Json (JObj [(''2024-01-10'', JObj []),
              (''20240111'', JObj [(''sets'', JStr ''ab'')]),
              (''2024-W02-5'', JObj [(''sets'', JObj [(''x'', JInt 1), (''y'', JInt 2)])]),
              (''2024-01-13'', JObj [(''note'', JStr ''n''), (''sets'', JArr [JInt 1500, JStr ''x'', JNull])])]))),
      Inr \<lparr>days =
            [(''2024-01-10'', \<lparr>date = \<lparr>year = 2024, month = 1, day = 10\<rparr>, sets = []\<rparr>),
             (''20240111'', \<lparr>date = \<lparr>year = 2024, month = 1, day = 11\<rparr>, sets = [JStr ''a'', JStr ''b'']\<rparr>),
             (''2024-W02-5'', \<lparr>date = \<lparr>year = 2024, month = 1, day = 12\<rparr>, sets = [JStr ''x'', JStr ''y'']\<rparr>),
             (''2024-01-13'', \<lparr>date = \<lparr>year = 2024, month = 1, day = 13\<rparr>, sets = [JInt 1500, JStr ''x'', JNull]\<rparr>)]\<rparr>)
   \<and> load_data (Dir (Some (Json (JArr []))))
   = (Dir (Some (Json (JArr []))),
      Inl AttributeError)
   \<and> load_data (Dir (Some (Json (JObj [(''2024-01-10'', JObj [(''sets'', JArr [JInt 1])]), (''2024-1-11'', JInt 5)]))))
   = (Dir (Some (Json (JObj [(''2024-01-10'', JObj [(''sets'', JArr [JInt 1])]), (''2024-1-11'', JInt 5)]))),
      Inl ValueError)
   \<and> load_data (Dir (Some (Json (JObj [(''2024-01-10'', JArr [JInt 1])]))))
   = (Dir (Some (Json (JObj [(''2024-01-10'', JArr [JInt 1])]))),
      Inl AttributeError)
   \<and> load_data (Dir (Some (Json (JObj [(''2024-01-10'', JObj [(''sets'', JInt 1500)]), (''what'', JNull)]))))
   = (Dir (Some (Json (JObj [(''2024-01-10'', JObj [(''sets'', JInt 1500)]), (''what'', JNull)]))),
      Inl TypeError)"
proof -
  have l0: "load_data (Dir (Some (Json (JObj [(''2024-01-10'', JObj []),
              (''20240111'', JObj [(''sets'', JStr ''ab'')]),
              (''2024-W02-5'', JObj [(''sets'', JObj [(''x'', JInt 1), (''y'', JInt 2)])]),
              (''2024-01-13'', JObj [(''note'', JStr ''n''), (''sets'', JArr [JInt 1500, JStr ''x'', JNull])])])))) = (Dir (Some (Json (JObj [(''2024-01-10'', JObj []),
              (''20240111'', JObj [(''sets'', JStr ''ab'')]),
              (''2024-W02-5'', JObj [(''sets'', JObj [(''x'', JInt 1), (''y'', JInt 2)])]),
              (''2024-01-13'', JObj [(''note'', JStr ''n''), (''sets'', JArr [JInt 1500, JStr ''x'', JNull])])]))), load_result (json_load (JObj [(''2024-01-10'', JObj []),
              (''20240111'', JObj [(''sets'', JStr ''ab'')]),
              (''2024-W02-5'', JObj [(''sets'', JObj [(''x'', JInt 1), (''y'', JInt 2)])]),
              (''2024-01-13'', JObj [(''note'', JStr ''n''), (''sets'', JArr [JInt 1500, JStr ''x'', JNull])])])))"
    using load_data_outcomes [of "JObj [(''2024-01-10'', JObj []),
              (''20240111'', JObj [(''sets'', JStr ''ab'')]),
              (''2024-W02-5'', JObj [(''sets'', JObj [(''x'', JInt 1), (''y'', JInt 2)])]),
              (''2024-01-13'', JObj [(''note'', JStr ''n''), (''sets'', JArr [JInt 1500, JStr ''x'', JNull])])]"] by blast
  have l1: "load_data (Dir (Some (Json (JArr [])))) = (Dir (Some (Json (JArr []))), load_result (json_load (JArr [])))"
    using load_data_outcomes [of "JArr []"] by blast
  have l2: "load_data (Dir (Some (Json (JObj [(''2024-01-10'', JObj [(''sets'', JArr [JInt 1])]), (''2024-1-11'', JInt 5)])))) = (Dir (Some (Json (JObj [(''2024-01-10'', JObj [(''sets'', JArr [JInt 1])]), (''2024-1-11'', JInt 5)]))), load_result (json_load (JObj [(''2024-01-10'', JObj [(''sets'', JArr [JInt 1])]), (''2024-1-11'', JInt 5)])))"
    using load_data_outcomes [of "JObj [(''2024-01-10'', JObj [(''sets'', JArr [JInt 1])]), (''2024-1-11'', JInt 5)]"] by blast
  have l3: "load_data (Dir (Some (Json (JObj [(''2024-01-10'', JArr [JInt 1])])))) = (Dir (Some (Json (JObj [(''2024-01-10'', JArr [JInt 1])]))), load_result (json_load (JObj [(''2024-01-10'', JArr [JInt 1])])))"
    using load_data_outcomes [of "JObj [(''2024-01-10'', JArr [JInt 1])]"] by blast
  have l4: "load_data (Dir (Some (Json (JObj [(''2024-01-10'', JObj [(''sets'', JInt 1500)]), (''what'', JNull)])))) = (Dir (Some (Json (JObj [(''2024-01-10'', JObj [(''sets'', JInt 1500)]), (''what'', JNull)]))), load_result (json_load (JObj [(''2024-01-10'', JObj [(''sets'', JInt 1500)]), (''what'', JNull)])))"
    using load_data_outcomes [of "JObj [(''2024-01-10'', JObj [(''sets'', JInt 1500)]), (''what'', JNull)]"] by blast
  show ?thesis
    unfolding l0 l1 l2 l3 l4
    by code_simp
qed


text \<open>
  The claim as stated fails: a file whose sets sequence holds a string and a
  \<^verbatim>\<open>null\<close> is not of the specified format, and \<open>load_data\<close> returns it as a store.
\<close>

theorem load_data_keeps_non_integer_sets:
  "\<not> well_formed_store (JObj [(''2024-01-10'', JObj [(''sets'', JArr [JStr ''x'', JNull])])])
   \<and> load_data (Dir (Some (Json (JObj [(''2024-01-10'', JObj [(''sets'', JArr [JStr ''x'', JNull])])]))))
     = (Dir (Some (Json (JObj [(''2024-01-10'', JObj [(''sets'', JArr [JStr ''x'', JNull])])]))),
        Inr \<lparr>days = [(''2024-01-10'',
                       \<lparr>date = \<lparr>year = 2024, month = 1, day = 10\<rparr>, sets = [JStr ''x'', JNull]\<rparr>)]\<rparr>)"
  by code_simp


subsection \<open>Dates and the keys of a store\<close>

text \<open>
  \<^verbatim>\<open>fromisoformat\<close> reads back what \<^verbatim>\<open>isoformat\<close> writes, so the stores the
  program builds (\<open>get_day\<close>) and the stores it loads keep every day under the ISO
  string of its date, which is what the round trip above asks of a store.
\<close>

lemma digit_char_code: "0 \<le> n \<Longrightarrow> n < 10 \<Longrightarrow> is_digit (digit_char n) \<and> int (of_char (digit_char n)) = 48 + n"
proof -
  assume n: "0 \<le> n" "n < 10"
  have "list_all (\<lambda>k. is_digit (digit_char (int k)) \<and> int (of_char (digit_char (int k))) = 48 + int k) [0..<10]"
    by code_simp
  then have all: "\<forall>k \<in> {0..<10}. is_digit (digit_char (int k)) \<and> int (of_char (digit_char (int k))) = 48 + int k"
    by (simp add: list_all_iff)
  have "nat n \<in> {0..<10}" using n by simp
  with all have "is_digit (digit_char (int (nat n))) \<and> int (of_char (digit_char (int (nat n)))) = 48 + int (nat n)"
    by (rule bspec)
  then show ?thesis using n by simp
qed

lemma parse_fold_snoc:
  "fold (\<lambda>c acc. acc * 10 + (int (of_char c) - 48)) (xs @ [c]) a
   = fold (\<lambda>c acc. acc * 10 + (int (of_char c) - 48)) xs a * 10 + (int (of_char c) - 48)"
  by simp

lemma str_digits_parse:
  "0 \<le> n \<Longrightarrow> list_all is_digit (str_digits n)
     \<and> fold (\<lambda>c acc. acc * 10 + (int (of_char c) - 48)) (str_digits n) 0 = n"
proof (induction n rule: str_digits.induct)
  case (1 n)
  show ?case
  proof (cases "n < 10")
    case True
    then show ?thesis using "1.prems" digit_char_code [of n] by (simp add: str_digits.simps)
  next
    case False
    then have ih: "list_all is_digit (str_digits (n div 10))
       \<and> fold (\<lambda>c acc. acc * 10 + (int (of_char c) - 48)) (str_digits (n div 10)) 0 = n div 10"
      using "1.IH" "1.prems" by simp
    have d: "is_digit (digit_char (n mod 10)) \<and> int (of_char (digit_char (n mod 10))) = 48 + n mod 10"
      by (rule digit_char_code) simp_all
    have s: "str_digits n = str_digits (n div 10) @ [digit_char (n mod 10)]"
      using False by (subst str_digits.simps) simp
    show ?thesis using ih d by (simp add: s)
  qed
qed

lemma zeros_parse:
  "list_all is_digit (replicate k (CHR ''0'')) \<and>
   fold (\<lambda>c acc. acc * 10 + (int (of_char c) - 48)) (replicate k (CHR ''0'')) 0 = 0"
proof
  show "list_all is_digit (replicate k (CHR ''0''))"
    by (induction k) (simp_all add: is_digit_def)
  show "fold (\<lambda>c acc. acc * 10 + (int (of_char c) - 48)) (replicate k (CHR ''0'')) 0 = 0"
    by (induction k) simp_all
qed

lemma parse_zero_padded: "0 \<le> n \<Longrightarrow> parse_digits (zero_padded w n) = Some n"
  using str_digits_parse [of n] zeros_parse [of "w - length (py_str n)"]
  by (simp add: parse_digits_def zero_padded_def py_str_def)

lemma length_str_digits: "0 \<le> n \<Longrightarrow> n < 10 ^ k \<Longrightarrow> 0 < k \<Longrightarrow> length (str_digits n) \<le> k"
proof (induction n arbitrary: k rule: str_digits.induct)
  case (1 n)
  show ?case
  proof (cases "n < 10")
    case True
    then show ?thesis using "1.prems" by (simp add: str_digits.simps)
  next
    case False
    then obtain j where k: "k = Suc j" and j: "0 < j"
      using "1.prems" by (cases k; cases "k - 1") auto
    have "n < 10 * 10 ^ j" using "1.prems" k by simp
    then have "n div 10 < 10 ^ j" by arith
    then have "length (str_digits (n div 10)) \<le> j"
      using "1.IH" False "1.prems" j by simp
    moreover have s: "str_digits n = str_digits (n div 10) @ [digit_char (n mod 10)]"
      using False by (subst str_digits.simps) simp
    ultimately show ?thesis using k by simp
  qed
qed

lemma length_zero_padded: "0 \<le> n \<Longrightarrow> n < 10 ^ w \<Longrightarrow> 0 < w \<Longrightarrow> length (zero_padded w n) = w"
  using length_str_digits [of n w] by (simp add: zero_padded_def py_str_def)

lemma zero_padded_no_hyphen: "0 \<le> n \<Longrightarrow> CHR ''-'' \<notin> set (zero_padded w n)"
  using str_digits_parse [of n]
  by (auto simp: zero_padded_def py_str_def list_all_iff is_digit_def)

lemma days_in_month_le: "1 \<le> m \<Longrightarrow> m \<le> 12 \<Longrightarrow> days_in_month y m \<le> 31"
proof -
  assume m: "1 \<le> m" "m \<le> 12"
  have "list_all (\<lambda>k. [31, 28, 31, 30, 31, 30, 31, 31, 30, 31, 30, 31] ! k \<le> (31::int)) [0..<12]"
    by code_simp
  then have all: "\<forall>k \<in> {0..<12}. [31, 28, 31, 30, 31, 30, 31, 31, 30, 31, 30, 31] ! k \<le> (31::int)"
    by (simp add: list_all_iff)
  have "nat (m - 1) \<in> {0..<12}" using m by simp
  with all have "[31, 28, 31, 30, 31, 30, 31, 31, 30, 31, 30, 31] ! nat (m - 1) \<le> (31::int)"
    by (rule bspec)
  then show ?thesis by (simp add: days_in_month_def)
qed

lemma digits_at_2: "digits_at b pos 2 = parse_digits [byte_at b pos, byte_at b (Suc pos)]"
proof -
  have "[pos..<pos + 2] = [pos, Suc pos]"
    by (simp add: upt_rec)
  then show ?thesis by (simp add: digits_at_def)
qed

lemma digits_at_4:
  "digits_at b pos 4
   = parse_digits [byte_at b pos, byte_at b (Suc pos), byte_at b (Suc (Suc pos)), byte_at b (Suc (Suc (Suc pos)))]"
proof -
  have "[pos..<pos + 4] = [pos, Suc pos, Suc (Suc pos), Suc (Suc (Suc pos))]"
    by (simp add: upt_rec)
  then show ?thesis by (simp add: digits_at_def)
qed

lemma zero_padded_digits: "0 \<le> n \<Longrightarrow> list_all is_digit (zero_padded w n)"
  using str_digits_parse [of n] zeros_parse [of "w - length (py_str n)"]
  by (simp add: zero_padded_def py_str_def)

lemma is_digit_ascii: "is_digit c \<Longrightarrow> (of_char c :: nat) < 128 \<and> c \<noteq> CHR ''W'' \<and> c \<noteq> CHR ''-''"
  by (auto simp: is_digit_def)

lemma fromisoformat_isoformat:
  assumes "make_date y m d = Inr dt"
  shows "fromisoformat (isoformat dt) = Inr dt"
proof -
  from assms have v: "1 \<le> y" "y \<le> 9999" "1 \<le> m" "m \<le> 12" "1 \<le> d" "d \<le> days_in_month y m"
    and dt: "dt = \<lparr>year = y, month = m, day = d\<rparr>"
    by (auto simp: make_date_def split: if_splits)
  have d31: "d \<le> 31" using v days_in_month_le [of m y] by simp
  let ?Y = "zero_padded 4 y" and ?M = "zero_padded 2 m" and ?D = "zero_padded 2 d"
  have "length ?Y = 4" using v by (intro length_zero_padded) simp_all
  then obtain y1 y2 y3 y4 where Y: "?Y = [y1, y2, y3, y4]"
    by (auto simp: length_Suc_conv numeral_eq_Suc)
  have "length ?M = 2" using v by (intro length_zero_padded) simp_all
  then obtain m1 m2 where M: "?M = [m1, m2]"
    by (auto simp: length_Suc_conv numeral_eq_Suc)
  have "length ?D = 2" using v d31 by (intro length_zero_padded) simp_all
  then obtain d1 d2 where D: "?D = [d1, d2]"
    by (auto simp: length_Suc_conv numeral_eq_Suc)
  have pY: "parse_digits [y1, y2, y3, y4] = Some y"
    using v parse_zero_padded [of y 4] by (simp add: Y)
  have pM: "parse_digits [m1, m2] = Some m"
    using v parse_zero_padded [of m 2] by (simp add: M)
  have pD: "parse_digits [d1, d2] = Some d"
    using v parse_zero_padded [of d 2] by (simp add: D)
  have gY: "list_all is_digit [y1, y2, y3, y4]" using v zero_padded_digits [of y 4] by (simp add: Y)
  have gM: "list_all is_digit [m1, m2]" using v zero_padded_digits [of m 2] by (simp add: M)
  have gD: "list_all is_digit [d1, d2]" using v zero_padded_digits [of d 2] by (simp add: D)
  have iso: "isoformat dt = [y1, y2, y3, y4, CHR ''-'', m1, m2, CHR ''-'', d1, d2]"
    by (simp add: isoformat_def dt Y M D)
  have u: "utf8 (isoformat dt) = [y1, y2, y3, y4, CHR ''-'', m1, m2, CHR ''-'', d1, d2]"
    using gY gM gD is_digit_ascii by (simp add: iso utf8_def)
  have notW: "m1 \<noteq> CHR ''W''" using gM is_digit_ascii by simp
  show ?thesis
    using pY pM pD notW assms
    by (simp add: fromisoformat_def u Let_def digits_at_2 digits_at_4 byte_at_def)
qed

lemma set_update_subset: "set (AList.update k v al) \<subseteq> insert (k, v) (set al)"
  by (induction al) auto

lemma from_dict_date: "from_dict day_obj v = Inr d \<Longrightarrow> date d = day_obj"
  by (cases v) (auto split: option.splits sum.splits)

lemma from_json_items_keys:
  "\<forall>(k, d) \<in> set acc. fromisoformat k = Inr (date d) \<Longrightarrow> from_json_items ps acc = Inr ds \<Longrightarrow>
   \<forall>(k, d) \<in> set ds. fromisoformat k = Inr (date d)"
proof (induction ps arbitrary: acc)
  case Nil
  then show ?case by simp
next
  case (Cons p ps)
  obtain k v where p: "p = (k, v)" by (cases p)
  from Cons.prems(2) p obtain day_obj d where
    iso: "fromisoformat k = Inr day_obj" and fd: "from_dict day_obj v = Inr d"
    and rest: "from_json_items ps (AList.update k d acc) = Inr ds"
    by (auto split: sum.splits)
  have "\<forall>(k, d) \<in> set (AList.update k d acc). fromisoformat k = Inr (date d)"
    using Cons.prems(1) iso from_dict_date [OF fd] set_update_subset [of k d acc] by auto
  from Cons.IH [OF this rest] show ?case .
qed

lemma load_data_keys:
  assumes "load_data fs = (fs', Inr data)"
  shows "\<forall>(k, d) \<in> set (days data). fromisoformat k = Inr (date d)"
proof (cases "data_file (ensure_storage_dir fs)")
  case None
  with assms show ?thesis by (auto simp: load_data_def)
next
  case (Some c)
  show ?thesis
  proof (cases c)
    case Not_json
    with Some assms show ?thesis by (simp add: load_data_def)
  next
    case (Json doc)
    with Some assms have fj: "from_json (json_load doc) = Inr data" by (simp add: load_data_def)
    then obtain ps where "json_load doc = JObj ps" by (cases "json_load doc") simp_all
    with fj obtain ds where "from_json_items ps [] = Inr ds" and "data = \<lparr>days = ds\<rparr>"
      by (auto split: sum.splits)
    then show ?thesis using from_json_items_keys [of "[]" ps ds] by simp
  qed
qed

lemma get_day_key:
  assumes "make_date y m d = Inr dt" and "\<forall>(k, x) \<in> set (days data). fromisoformat k = Inr (date x)"
  shows "\<forall>(k, x) \<in> set (days (fst (get_day data dt))). fromisoformat k = Inr (date x)"
  using assms(2) fromisoformat_isoformat [OF assms(1)]
  by (auto simp: get_day_def Let_def split: option.splits)

subsection \<open>The days a command shows\<close>

lemma length_summarize_day: "length (summarize_day d) = length table_headers"
  by (simp add: summarize_day_def table_headers_def)

lemma print_table_text:
  assumes "list_all (\<lambda>d. int_day d \<noteq> None) ds"
  shows "print_table fs ds
         = (fs, print (table_text table_headers (map (\<lambda>d. summarize_day (the (int_day d))) ds)), None)"
proof -
  have "\<forall>row \<in> set (map (\<lambda>d. summarize_day (the (int_day d))) ds). length row = length table_headers"
    by (simp add: length_summarize_day)
  from render_table_text [OF this] show ?thesis
    using assms by (simp add: print_table_def)
qed

lemma insort_map_key: "insort (f x) (map f ys) = map f (insort_key f x ys)"
  by (induction ys) auto

lemma sort_map_key: "sort (map f xs) = map f (sort_key f xs)"
  by (induction xs) (auto simp: insort_map_key)

lemma lookup_own_keys:
  "distinct (map fst ys) \<Longrightarrow> map (\<lambda>k. the (map_of ys k)) (map fst ys) = map snd ys"
proof (induction ys)
  case Nil
  show ?case by simp
next
  case (Cons y ys)
  obtain k v where y: "y = (k, v)" by (cases y)
  have "k \<notin> set (map fst ys)" using Cons.prems y by simp
  then have "map (\<lambda>k'. the (map_of (y # ys) k')) (map fst ys) = map (\<lambda>k'. the (map_of ys k')) (map fst ys)"
    using y by (intro map_cong refl) auto
  then show ?case using Cons y by simp
qed

lemma sorted_days_sort_key:
  assumes "distinct (map fst (days data))"
  shows "sorted_days data = map snd (sort_key fst (days data))"
proof -
  have d: "distinct (map fst (sort_key fst (days data)))"
    using assms by (simp add: distinct_map inj_on_def)
  have "map_of (days data) = map_of (sort_key fst (days data))"
    using assms d by (intro map_of_inject_set [THEN iffD2]) simp_all
  then show ?thesis
    using lookup_own_keys [OF d] by (simp add: sorted_days_def sort_map_key)
qed

lemma from_json_items_distinct:
  "distinct (map fst acc) \<Longrightarrow> from_json_items ps acc = Inr ds \<Longrightarrow> distinct (map fst ds)"
proof (induction ps arbitrary: acc)
  case Nil
  then show ?case by simp
next
  case (Cons p ps)
  obtain k v where p: "p = (k, v)" by (cases p)
  from Cons.prems(2) p obtain dt d where
    "from_json_items ps (AList.update k d acc) = Inr ds"
    by (auto split: sum.splits)
  moreover have "distinct (map fst (AList.update k d acc))"
    using Cons.prems(1) by (simp add: distinct_update)
  ultimately show ?case using Cons.IH by blast
qed

lemma load_data_distinct:
  assumes "load_data fs = (fs', Inr data)"
  shows "distinct (map fst (days data))"
proof (cases "data_file (ensure_storage_dir fs)")
  case None
  with assms show ?thesis by (auto simp: load_data_def)
next
  case (Some c)
  show ?thesis
  proof (cases c)
    case Not_json
    with Some assms show ?thesis by (simp add: load_data_def)
  next
    case (Json doc)
    with Some assms have fj: "from_json (json_load doc) = Inr data" by (simp add: load_data_def)
    then obtain ps where "json_load doc = JObj ps" by (cases "json_load doc") simp_all
    with fj obtain ds where "from_json_items ps [] = Inr ds" and "data = \<lparr>days = ds\<rparr>"
      by (auto split: sum.splits)
    then show ?thesis using from_json_items_distinct [of "[]" ps ds] by simp
  qed
qed

subsection \<open>The summary command\<close>

lemma filter_map_snd:
  "filter P (map snd xs) = map snd (filter (\<lambda>kd. P (snd kd)) xs)"
  by (induction xs) auto

text \<open>
  Claim C3, as amended. For a store that loads and holds integer sets, and for every
  \<open>N\<close> (positive or not), the summary command without \<^verbatim>\<open>--date\<close> computes the
  cutoff \<open>today - (N - 1)\<close> days; it shows exactly the stored days whose date is on or
  after the cutoff, in ascending order of their keys, and a day after today is one of
  them; when no day is, it prints the fixed message in place of a table. When the
  cutoff is not a date of the calendar the command ends with \<^verbatim>\<open>OverflowError\<close>.
\<close>

theorem cmd_summary_recent_days:
  assumes "load_data fs = (fs', Inr data)"
    and "list_all (\<lambda>kd. int_day (snd kd) \<noteq> None) (days data)"
    and "date_arg args = None" and "days_arg args = Some N"
  shows "cmd_summary today args fs =
     (case date_minus_days today (N - 1) of
        Inl e \<Rightarrow> (fs', [], Some e)
      | Inr cutoff \<Rightarrow>
          (let shown = map snd (filter (\<lambda>kd. date_le cutoff (date (snd kd))) (sort_key fst (days data)))
           in (fs',
               print (if shown = [] then no_data_message
                      else table_text table_headers (map (\<lambda>d. summarize_day (the (int_day d))) shown)),
               None)))"
proof (cases "date_minus_days today (N - 1)")
  case (Inl e)
  then show ?thesis using assms by (simp add: cmd_summary_def summary_days_def)
next
  case (Inr cutoff)
  let ?shown = "map snd (filter (\<lambda>kd. date_le cutoff (date (snd kd))) (sort_key fst (days data)))"
  have sd: "sorted_days data = map snd (sort_key fst (days data))"
    using load_data_distinct [OF assms(1)] by (rule sorted_days_sort_key)
  have sel: "summary_days today args (sorted_days data) = Inr ?shown"
    using assms(3,4) Inr by (simp add: summary_days_def sd filter_map_snd)
  have "list_all (\<lambda>d. int_day d \<noteq> None) ?shown"
    using assms(2) by (auto simp: list_all_iff)
  then have "print_table fs' ?shown
      = (fs', print (table_text table_headers (map (\<lambda>d. summarize_day (the (int_day d))) ?shown)), None)"
    by (rule print_table_text)
  then show ?thesis
    using assms(1) sel Inr by (simp add: cmd_summary_def Let_def)
qed

text \<open>
  The claim as stated fails: on 2024-01-10 with \<^verbatim>\<open>--days 7\<close> the range is
  2024-01-04 to 2024-01-10, and the day 2099-01-01, which is after today, is shown.
\<close>

theorem cmd_summary_shows_future_day:
  "date_minus_days \<lparr>year = 2024, month = 1, day = 10\<rparr> (7 - 1) = Inr \<lparr>year = 2024, month = 1, day = 4\<rparr>
   \<and> \<not> date_le \<lparr>year = 2099, month = 1, day = 1\<rparr> \<lparr>year = 2024, month = 1, day = 10\<rparr>
   \<and> cmd_summary \<lparr>year = 2024, month = 1, day = 10\<rparr>
        \<lparr>func = Some Summary, elo = 0, date_arg = None, days_arg = Some 7, limit = None\<rparr>
        (Dir (Some (Json (JObj [(''2024-01-10'', JObj [(''sets'', JArr [JInt 1500])]),
                                (''2099-01-01'', JObj [(''sets'', JArr [JInt 1490])])]))))
     = (Dir (Some (Json (JObj [(''2024-01-10'', JObj [(''sets'', JArr [JInt 1500])]),
                               (''2099-01-01'', JObj [(''sets'', JArr [JInt 1490])])]))),
        print (table_text table_headers
                 [[''2024-01-10'', ''1'', ''1500'', ''1500'', ''+0'', ''1500'', ''1500''],
                  [''2099-01-01'', ''1'', ''1490'', ''1490'', ''+0'', ''1490'', ''1490'']]),
        None)"
  by code_simp

theorem cmd_summary_recent_days_witness:
  "cmd_summary \<lparr>year = 2024, month = 1, day = 10\<rparr>
     \<lparr>func = Some Summary, elo = 0, date_arg = None, days_arg = Some 7, limit = None\<rparr>
     (Dir (Some (Json (JObj [(''2024-01-01'', JObj [(''sets'', JArr [JInt 1501])]),
        (''2024-01-02'', JObj [(''sets'', JArr [JInt 1502])]),
        (''2024-01-03'', JObj [(''sets'', JArr [JInt 1503])]),
        (''2024-01-04'', JObj [(''sets'', JArr [JInt 1504])]),
        (''2024-01-05'', JObj [(''sets'', JArr [JInt 1505])]),
        (''2024-01-06'', JObj [(''sets'', JArr [JInt 1506])]),
        (''2024-01-07'', JObj [(''sets'', JArr [JInt 1507])]),
        (''2024-01-08'', JObj [(''sets'', JArr [JInt 1508])]),
        (''2024-01-09'', JObj [(''sets'', JArr [JInt 1509])]),
        (''2024-01-10'', JObj [(''sets'', JArr [JInt 1510])])]))))
   = (Dir (Some (Json (JObj [(''2024-01-01'', JObj [(''sets'', JArr [JInt 1501])]),
        (''2024-01-02'', JObj [(''sets'', JArr [JInt 1502])]),
        (''2024-01-03'', JObj [(''sets'', JArr [JInt 1503])]),
        (''2024-01-04'', JObj [(''sets'', JArr [JInt 1504])]),
        (''2024-01-05'', JObj [(''sets'', JArr [JInt 1505])]),
        (''2024-01-06'', JObj [(''sets'', JArr [JInt 1506])]),
        (''2024-01-07'', JObj [(''sets'', JArr [JInt 1507])]),
        (''2024-01-08'', JObj [(''sets'', JArr [JInt 1508])]),
        (''2024-01-09'', JObj [(''sets'', JArr [JInt 1509])]),
        (''2024-01-10'', JObj [(''sets'', JArr [JInt 1510])])]))),
      print (table_text table_headers
       [[''2024-01-04'', ''1'', ''1504'', ''1504'', ''+0'', ''1504'', ''1504''],
        [''2024-01-05'', ''1'', ''1505'', ''1505'', ''+0'', ''1505'', ''1505''],
        [''2024-01-06'', ''1'', ''1506'', ''1506'', ''+0'', ''1506'', ''1506''],
        [''2024-01-07'', ''1'', ''1507'', ''1507'', ''+0'', ''1507'', ''1507''],
        [''2024-01-08'', ''1'', ''1508'', ''1508'', ''+0'', ''1508'', ''1508''],
        [''2024-01-09'', ''1'', ''1509'', ''1509'', ''+0'', ''1509'', ''1509''],
        [''2024-01-10'', ''1'', ''1510'', ''1510'', ''+0'', ''1510'', ''1510'']]),
      None)"
proof -
  let ?fs = "Dir (Some (Json (JObj [(''2024-01-01'', JObj [(''sets'', JArr [JInt 1501])]),
        (''2024-01-02'', JObj [(''sets'', JArr [JInt 1502])]),
        (''2024-01-03'', JObj [(''sets'', JArr [JInt 1503])]),
        (''2024-01-04'', JObj [(''sets'', JArr [JInt 1504])]),
        (''2024-01-05'', JObj [(''sets'', JArr [JInt 1505])]),
        (''2024-01-06'', JObj [(''sets'', JArr [JInt 1506])]),
        (''2024-01-07'', JObj [(''sets'', JArr [JInt 1507])]),
        (''2024-01-08'', JObj [(''sets'', JArr [JInt 1508])]),
        (''2024-01-09'', JObj [(''sets'', JArr [JInt 1509])]),
        (''2024-01-10'', JObj [(''sets'', JArr [JInt 1510])])])))"
  let ?data = "\<lparr>days = [(''2024-01-01'', \<lparr>date = \<lparr>year = 2024, month = 1, day = 1\<rparr>, sets = [JInt 1501]\<rparr>),
        (''2024-01-02'', \<lparr>date = \<lparr>year = 2024, month = 1, day = 2\<rparr>, sets = [JInt 1502]\<rparr>),
        (''2024-01-03'', \<lparr>date = \<lparr>year = 2024, month = 1, day = 3\<rparr>, sets = [JInt 1503]\<rparr>),
        (''2024-01-04'', \<lparr>date = \<lparr>year = 2024, month = 1, day = 4\<rparr>, sets = [JInt 1504]\<rparr>),
        (''2024-01-05'', \<lparr>date = \<lparr>year = 2024, month = 1, day = 5\<rparr>, sets = [JInt 1505]\<rparr>),
        (''2024-01-06'', \<lparr>date = \<lparr>year = 2024, month = 1, day = 6\<rparr>, sets = [JInt 1506]\<rparr>),
        (''2024-01-07'', \<lparr>date = \<lparr>year = 2024, month = 1, day = 7\<rparr>, sets = [JInt 1507]\<rparr>),
        (''2024-01-08'', \<lparr>date = \<lparr>year = 2024, month = 1, day = 8\<rparr>, sets = [JInt 1508]\<rparr>),
        (''2024-01-09'', \<lparr>date = \<lparr>year = 2024, month = 1, day = 9\<rparr>, sets = [JInt 1509]\<rparr>),
        (''2024-01-10'', \<lparr>date = \<lparr>year = 2024, month = 1, day = 10\<rparr>, sets = [JInt 1510]\<rparr>)]\<rparr>"
  let ?args = "\<lparr>func = Some Summary, elo = 0, date_arg = None, days_arg = Some 7, limit = None\<rparr>"
  have h1: "load_data ?fs = (?fs, Inr ?data)"
    by code_simp
  have h2: "list_all (\<lambda>kd. int_day (snd kd) \<noteq> None) (days ?data)"
    by code_simp
  have h3: "date_arg ?args = None" and h4: "days_arg ?args = Some 7"
    by simp_all
  show ?thesis
    by (subst cmd_summary_recent_days [OF h1 h2 h3 h4]) code_simp
qed

subsection \<open>The history command\<close>

lemma cmd_history_shown:
  assumes "load_data fs = (fs', Inr data)" and "days data \<noteq> []"
    and "list_all (\<lambda>kd. int_day (snd kd) \<noteq> None) (days data)"
    and "set shown \<subseteq> set (sorted_days data)"
    and "(case limit args of None \<Rightarrow> sorted_days data | Some l \<Rightarrow> slice_from (- l) (sorted_days data)) = shown"
  shows "cmd_history args fs
         = (fs', print (table_text table_headers (map (\<lambda>d. summarize_day (the (int_day d))) shown)), None)"
proof -
  have sd: "sorted_days data = map snd (sort_key fst (days data))"
    using load_data_distinct [OF assms(1)] by (rule sorted_days_sort_key)
  have "length (sorted_days data) = length (days data)" by (simp add: sorted_days_def)
  then have ne: "sorted_days data \<noteq> []" using assms(2) by auto
  have "list_all (\<lambda>d. int_day d \<noteq> None) (sorted_days data)"
    using assms(3) by (auto simp: sd list_all_iff)
  then have "list_all (\<lambda>d. int_day d \<noteq> None) shown"
    using assms(4) by (auto simp: list_all_iff)
  then have "print_table fs' shown
      = (fs', print (table_text table_headers (map (\<lambda>d. summarize_day (the (int_day d))) shown)), None)"
    by (rule print_table_text)
  then show ?thesis
    using assms(1,5) ne by (simp add: cmd_history_def Let_def)
qed

text \<open>
  Claim C9. For a store that is not empty, \<^verbatim>\<open>--limit 0\<close> shows all days: the slice
  \<^verbatim>\<open>days[-0:]\<close> is the whole list. More generally a limit \<open>l \<le> 0\<close> shows the days
  from index \<open>- l\<close> of the ascending list on, so the output is not cut to \<open>l\<close> rows.
\<close>

theorem cmd_history_non_positive_limit:
  assumes "load_data fs = (fs', Inr data)" and "days data \<noteq> []"
    and "list_all (\<lambda>kd. int_day (snd kd) \<noteq> None) (days data)"
    and "limit args = Some l" and "l \<le> 0"
  shows "cmd_history args fs
         = (fs',
            print (table_text table_headers
                     (map (\<lambda>d. summarize_day (the (int_day d)))
                        (drop (nat (- l)) (map snd (sort_key fst (days data)))))),
            None)
       \<and> cmd_history (args\<lparr>limit := Some 0\<rparr>) fs
         = (fs',
            print (table_text table_headers
                     (map (\<lambda>d. summarize_day (the (int_day d))) (map snd (sort_key fst (days data))))),
            None)"
proof
  have sd: "sorted_days data = map snd (sort_key fst (days data))"
    using load_data_distinct [OF assms(1)] by (rule sorted_days_sort_key)
  have "(case limit args of None \<Rightarrow> sorted_days data | Some l \<Rightarrow> slice_from (- l) (sorted_days data))
        = drop (nat (- l)) (sorted_days data)"
    using assms(4,5) by (simp add: slice_from_def)
  moreover have "set (drop (nat (- l)) (sorted_days data)) \<subseteq> set (sorted_days data)"
    by (rule set_drop_subset)
  ultimately show "cmd_history args fs
         = (fs',
            print (table_text table_headers
                     (map (\<lambda>d. summarize_day (the (int_day d)))
                        (drop (nat (- l)) (map snd (sort_key fst (days data)))))),
            None)"
    using cmd_history_shown [OF assms(1,2,3)] sd by simp
next
  have sd: "sorted_days data = map snd (sort_key fst (days data))"
    using load_data_distinct [OF assms(1)] by (rule sorted_days_sort_key)
  have "(case limit (args\<lparr>limit := Some 0\<rparr>) of None \<Rightarrow> sorted_days data
         | Some l \<Rightarrow> slice_from (- l) (sorted_days data)) = sorted_days data"
    by (simp add: slice_from_def)
  then show "cmd_history (args\<lparr>limit := Some 0\<rparr>) fs
         = (fs',
            print (table_text table_headers
                     (map (\<lambda>d. summarize_day (the (int_day d))) (map snd (sort_key fst (days data))))),
            None)"
    using cmd_history_shown [OF assms(1,2,3), of "sorted_days data" "args\<lparr>limit := Some 0\<rparr>"] sd by simp
qed

lemma cmd_history_positive_limit:
  assumes "load_data fs = (fs', Inr data)" and "days data \<noteq> []"
    and "list_all (\<lambda>kd. int_day (snd kd) \<noteq> None) (days data)"
    and "limit args = Some l" and "0 < l"
  shows "cmd_history args fs
         = (fs',
            print (table_text table_headers
                     (map (\<lambda>d. summarize_day (the (int_day d)))
                        (drop (length (days data) - nat l) (map snd (sort_key fst (days data)))))),
            None)"
proof -
  have sd: "sorted_days data = map snd (sort_key fst (days data))"
    using load_data_distinct [OF assms(1)] by (rule sorted_days_sort_key)
  have len: "length (sorted_days data) = length (days data)" by (simp add: sorted_days_def)
  have "nat (int (length (days data)) - l) = length (days data) - nat l"
    using assms(5) by simp
  then have "(case limit args of None \<Rightarrow> sorted_days data | Some l \<Rightarrow> slice_from (- l) (sorted_days data))
        = drop (length (days data) - nat l) (sorted_days data)"
    using assms(4,5) by (simp add: slice_from_def len)
  moreover have "set (drop (length (days data) - nat l) (sorted_days data)) \<subseteq> set (sorted_days data)"
    by (rule set_drop_subset)
  ultimately show ?thesis
    using cmd_history_shown [OF assms(1,2,3)] sd by simp
qed

lemma cmd_history_no_limit:
  assumes "load_data fs = (fs', Inr data)"
    and "list_all (\<lambda>kd. int_day (snd kd) \<noteq> None) (days data)"
    and "limit args = None"
  shows "cmd_history args fs
         = (fs',
            print (if days data = [] then no_data_message
                   else table_text table_headers
                          (map (\<lambda>d. summarize_day (the (int_day d))) (map snd (sort_key fst (days data))))),
            None)"
proof (cases "days data = []")
  case True
  then show ?thesis using assms(1) by (simp add: cmd_history_def sorted_days_def)
next
  case False
  have sd: "sorted_days data = map snd (sort_key fst (days data))"
    using load_data_distinct [OF assms(1)] by (rule sorted_days_sort_key)
  show ?thesis
    using cmd_history_shown [OF assms(1) False assms(2), of "sorted_days data" args] assms(3) sd False
    by simp
qed

theorem cmd_history_non_positive_limit_witness:
  "cmd_history \<lparr>func = Some History, elo = 0, date_arg = None, days_arg = None, limit = Some (- 1)\<rparr>
     (Dir (Some (Json (JObj [(''2024-01-11'', JObj [(''sets'', JArr [JInt 1510, JInt 1525])]),
        (''2024-01-09'', JObj [(''sets'', JArr [JInt 1500])]),
        (''2024-01-10'', JObj [(''sets'', JArr [JInt 1490, JInt 1480, JInt 1495])])]))))
   = (Dir (Some (Json (JObj [(''2024-01-11'', JObj [(''sets'', JArr [JInt 1510, JInt 1525])]),
        (''2024-01-09'', JObj [(''sets'', JArr [JInt 1500])]),
        (''2024-01-10'', JObj [(''sets'', JArr [JInt 1490, JInt 1480, JInt 1495])])]))),
      print (table_text table_headers
        [[''2024-01-10'', ''3'', ''1490'', ''1495'', ''+5'', ''1495'', ''1480''],
         [''2024-01-11'', ''2'', ''1510'', ''1525'', ''+15'', ''1525'', ''1510'']]),
      None)
   \<and> cmd_history (\<lparr>func = Some History, elo = 0, date_arg = None, days_arg = None, limit = Some (- 1)\<rparr>\<lparr>limit := Some 0\<rparr>)
     (Dir (Some (Json (JObj [(''2024-01-11'', JObj [(''sets'', JArr [JInt 1510, JInt 1525])]),
        (''2024-01-09'', JObj [(''sets'', JArr [JInt 1500])]),
        (''2024-01-10'', JObj [(''sets'', JArr [JInt 1490, JInt 1480, JInt 1495])])]))))
   = (Dir (Some (Json (JObj [(''2024-01-11'', JObj [(''sets'', JArr [JInt 1510, JInt 1525])]),
        (''2024-01-09'', JObj [(''sets'', JArr [JInt 1500])]),
        (''2024-01-10'', JObj [(''sets'', JArr [JInt 1490, JInt 1480, JInt 1495])])]))),
      print (table_text table_headers
        [[''2024-01-09'', ''1'', ''1500'', ''1500'', ''+0'', ''1500'', ''1500''],
         [''2024-01-10'', ''3'', ''1490'', ''1495'', ''+5'', ''1495'', ''1480''],
         [''2024-01-11'', ''2'', ''1510'', ''1525'', ''+15'', ''1525'', ''1510'']]),
      None)"
proof -
  let ?fs = "Dir (Some (Json (JObj [(''2024-01-11'', JObj [(''sets'', JArr [JInt 1510, JInt 1525])]),
        (''2024-01-09'', JObj [(''sets'', JArr [JInt 1500])]),
        (''2024-01-10'', JObj [(''sets'', JArr [JInt 1490, JInt 1480, JInt 1495])])])))"
  let ?data = "\<lparr>days = [(''2024-01-11'', \<lparr>date = \<lparr>year = 2024, month = 1, day = 11\<rparr>, sets = [JInt 1510, JInt 1525]\<rparr>),
        (''2024-01-09'', \<lparr>date = \<lparr>year = 2024, month = 1, day = 9\<rparr>, sets = [JInt 1500]\<rparr>),
        (''2024-01-10'', \<lparr>date = \<lparr>year = 2024, month = 1, day = 10\<rparr>, sets = [JInt 1490, JInt 1480, JInt 1495]\<rparr>)]\<rparr>"
  let ?args = "\<lparr>func = Some History, elo = 0, date_arg = None, days_arg = None, limit = Some (- 1)\<rparr>"
  have h1: "load_data ?fs = (?fs, Inr ?data)"
    by code_simp
  have h2: "days ?data \<noteq> []"
    by simp
  have h3: "list_all (\<lambda>kd. int_day (snd kd) \<noteq> None) (days ?data)"
    by code_simp
  have h4: "limit ?args = Some (- 1)" and h5: "(- 1 :: int) \<le> 0"
    by simp_all
  note t = cmd_history_non_positive_limit [OF h1 h2 h3 h4 h5]
  show ?thesis
  proof
    show "cmd_history ?args ?fs
          = (?fs, print (table_text table_headers
               [[''2024-01-10'', ''3'', ''1490'', ''1495'', ''+5'', ''1495'', ''1480''],
                [''2024-01-11'', ''2'', ''1510'', ''1525'', ''+15'', ''1525'', ''1510'']]), None)"
      by (subst t [THEN conjunct1]) code_simp
    show "cmd_history (?args\<lparr>limit := Some 0\<rparr>) ?fs
          = (?fs, print (table_text table_headers
               [[''2024-01-09'', ''1'', ''1500'', ''1500'', ''+0'', ''1500'', ''1500''],
                [''2024-01-10'', ''3'', ''1490'', ''1495'', ''+5'', ''1495'', ''1480''],
                [''2024-01-11'', ''2'', ''1510'', ''1525'', ''+15'', ''1525'', ''1510'']]), None)"
      by (subst t [THEN conjunct2]) code_simp
  qed
qed


text \<open>
  Claim C4 fails at \<^verbatim>\<open>--limit 0\<close>: the last zero days of a store are no days, and the
  command prints the row of the one stored day. (For a positive limit it shows the last
  \<open>limit\<close> days in ascending order, and all days without a limit:
  \<open>cmd_history_positive_limit\<close>, \<open>cmd_history_no_limit\<close>.)
\<close>

theorem cmd_history_limit_zero_shows_a_day:
  "cmd_history \<lparr>func = Some History, elo = 0, date_arg = None, days_arg = None, limit = Some 0\<rparr>
     (Dir (Some (Json (JObj [(''2024-01-10'', JObj [(''sets'', JArr [JInt 1500, JInt 1490])])]))))
   = (Dir (Some (Json (JObj [(''2024-01-10'', JObj [(''sets'', JArr [JInt 1500, JInt 1490])])]))),
      print (table_text table_headers [[''2024-01-10'', ''2'', ''1500'', ''1490'', ''-10'', ''1500'', ''1490'']]),
      None)"
  by code_simp

subsection \<open>The reset command\<close>

lemma of_char_lower_char:
  "(of_char (lower_char c) :: nat)
   = (if (65 \<le> (of_char c :: nat) \<and> (of_char c :: nat) \<le> 90)
         \<or> (192 \<le> (of_char c :: nat) \<and> (of_char c :: nat) \<le> 222 \<and> (of_char c :: nat) \<noteq> 215)
      then of_char c + 32 else of_char c)"
  by (simp add: lower_char_def Let_def)

lemma char_eq_by_code: "(c = d) = ((of_char c :: nat) = of_char d)"
  by simp

lemma lower_char_y: "(lower_char c = CHR ''y'') = (c = CHR ''y'' \<or> c = CHR ''Y'')"
  unfolding char_eq_by_code [of _ "CHR ''y''"] char_eq_by_code [of _ "CHR ''Y''"] of_char_lower_char
  by auto

lemma lower_char_e: "(lower_char c = CHR ''e'') = (c = CHR ''e'' \<or> c = CHR ''E'')"
  unfolding char_eq_by_code [of _ "CHR ''e''"] char_eq_by_code [of _ "CHR ''E''"] of_char_lower_char
  by auto

lemma lower_char_s: "(lower_char c = CHR ''s'') = (c = CHR ''s'' \<or> c = CHR ''S'')"
  unfolding char_eq_by_code [of _ "CHR ''s''"] char_eq_by_code [of _ "CHR ''S''"] of_char_lower_char
  by auto

lemma lower_yes: "(lower s = ''yes'') = matches_yes s"
proof -
  have "(lower s = ''yes'')
        = (\<exists>a b c. s = [a, b, c] \<and> lower_char a = CHR ''y'' \<and> lower_char b = CHR ''e'' \<and> lower_char c = CHR ''s'')"
    by (auto simp: lower_def map_eq_Cons_conv)
  also have "\<dots> = matches_yes s"
    unfolding lower_char_y lower_char_e lower_char_s matches_yes_def by auto
  finally show ?thesis .
qed

lemma save_data_empty: "save_data \<lparr>days = []\<rparr> fs = Dir (Some (Json (JObj [])))"
  by (simp add: save_data_eq to_json_def)

lemma cmd_reset_line:
  "cmd_reset (Some line) fs
   = (if matches_yes (strip line)
      then (Dir (Some (Json (JObj []))), reset_prompt @ print ''All Elo data has been cleared.'', None)
      else (fs, reset_prompt @ print ''Reset cancelled.'', None))"
  by (simp add: cmd_reset_def Let_def lower_yes save_data_empty)

lemma cmd_reset_end_of_input: "cmd_reset None fs = (fs, reset_prompt, Some EOFError)"
  by (simp add: cmd_reset_def)

text \<open>
  Claim C5, as amended. The reset command confirms exactly when the line read, with the
  white space at both ends stripped, is \<^verbatim>\<open>yes\<close> in any mix of upper and lower case.
  Then the file is overwritten with the empty JSON object, whatever it held. On any
  other line the file system is returned as it was and the cancellation notice is
  printed; at the end of the input the command ends with \<^verbatim>\<open>EOFError\<close> and saves
  nothing.
\<close>

theorem cmd_reset_confirmation:
  "cmd_reset (Some line) fs
   = (if matches_yes (strip line)
      then (Dir (Some (Json (JObj []))), reset_prompt @ print ''All Elo data has been cleared.'', None)
      else (fs, reset_prompt @ print ''Reset cancelled.'', None))
   \<and> cmd_reset None fs = (fs, reset_prompt, Some EOFError)"
  using cmd_reset_line cmd_reset_end_of_input by simp

text \<open>
  The claim as stated fails: the line \<^verbatim>\<open>" yes "\<close> is not \<^verbatim>\<open>yes\<close> in any case,
  and the command confirms and overwrites the file.
\<close>

theorem cmd_reset_strips_the_line:
  "\<not> matches_yes '' yes ''
   \<and> cmd_reset (Some '' yes '') (Dir (Some (Json (JObj [(''2024-01-10'', JObj [(''sets'', JArr [JInt 1500])])]))))
     = (Dir (Some (Json (JObj []))), reset_prompt @ print ''All Elo data has been cleared.'', None)"
  by code_simp


subsection \<open>No sub-command\<close>

text \<open>
  Claim C6 fails: with no sub-command the parser, whose sub-command is required, ends
  the process with status 2 before \<open>main\<close> reaches its branch that prints the help;
  nothing is written to standard output.
\<close>

theorem main_without_subcommand:
  "main parse_command help today line [] fs = (fs, [], Some (SystemExit 2))"
  by (simp add: main_def parse_args_def subparsers_required_def)


subsection \<open>Where the data directory is made\<close>

lemma fst_load_data: "fst (load_data fs) = ensure_storage_dir fs"
  by (simp add: load_data_def Let_def split: option.splits file_content.splits)

lemma ensure_storage_dir_exists: "ensure_storage_dir fs \<noteq> No_dir"
  by (cases fs) simp_all

lemma fst_print_table: "fst (print_table fs ds) = fs"
  by (simp add: print_table_def split: sum.splits)

lemma fst_cmd_summary: "fst (cmd_summary today args fs) = ensure_storage_dir fs"
  using fst_load_data [of fs]
  by (auto simp: cmd_summary_def fst_print_table split: prod.splits sum.splits)

lemma fst_cmd_history: "fst (cmd_history args fs) = ensure_storage_dir fs"
  using fst_load_data [of fs]
  by (auto simp: cmd_history_def Let_def fst_print_table split: prod.splits sum.splits)

lemma fst_cmd_record: "fst (cmd_record today args fs) \<noteq> No_dir"
  using fst_load_data [of fs] ensure_storage_dir_exists [of fs]
  by (auto simp: cmd_record_def Let_def save_data_eq split: prod.splits sum.splits)

text \<open>
  Claim C10, as amended. \<open>load_data\<close> makes the data directory before it reads, also
  when the file is missing, so the record, summary and history commands leave the
  directory in place even when they end with an exception, and summary and history
  change nothing else. The reset command does not load: it makes the directory only
  when the line confirms, through \<open>save_data\<close>, and otherwise leaves the file system
  as it was.
\<close>

theorem directory_creation:
  "fst (load_data fs) = ensure_storage_dir fs
   \<and> ensure_storage_dir fs \<noteq> No_dir
   \<and> fst (cmd_summary today args fs) = ensure_storage_dir fs
   \<and> fst (cmd_history args fs) = ensure_storage_dir fs
   \<and> fst (cmd_record today args fs) \<noteq> No_dir
   \<and> fst (cmd_reset line fs)
     = (if \<exists>l. line = Some l \<and> matches_yes (strip l) then Dir (Some (Json (JObj []))) else fs)"
  using cmd_reset_line cmd_reset_end_of_input
  by (cases line) (simp_all add: fst_load_data ensure_storage_dir_exists fst_cmd_summary fst_cmd_history fst_cmd_record)

text \<open>
  The claim as stated fails for the reset command: answered with \<^verbatim>\<open>no\<close> where the
  directory is missing, it leaves the directory missing.
\<close>

theorem cancelled_reset_creates_no_directory:
  "cmd_reset (Some ''no'') No_dir = (No_dir, reset_prompt @ print ''Reset cancelled.'', None)"
  by code_simp

end
